theory Spec2Isabelle
  imports Complex_Main "HOL-Library.Multiset" "HOL-Library.Sublist" "HOL-Library.Char_ord" "HOL-Library.List_Lexorder"
begin

section \<open>Strings\<close>

text \<open>
  Python strings are modelled as \<open>string\<close>; one \<open>char\<close> stands for one code point
  below 256, so \<open>length\<close> counts what Python's \<open>len\<close> counts on such strings.
\<close>

definition startswith :: "string \<Rightarrow> string \<Rightarrow> bool" where
  "startswith s p = (take (length p) s = p)"

definition rstrip_chars :: "(char \<Rightarrow> bool) \<Rightarrow> string \<Rightarrow> string" where
  \<comment> \<open>\<open>str.rstrip\<close>: every trailing character of the given class is removed.\<close>
  "rstrip_chars P s = rev (dropWhile P (rev s))"

section \<open>utils.py: normalize_url\<close>

definition has_scheme :: "string \<Rightarrow> bool" where
  \<comment> \<open>\<open>url.startswith(('http://', 'https://'))\<close>\<close>
  "has_scheme url = (startswith url ''http://'' \<or> startswith url ''https://'')"

definition normalize_url :: "string \<Rightarrow> string" where
  "normalize_url url =
     (if url = [] then []
      else rstrip_chars (\<lambda>c. c = CHR ''/'')
             (if has_scheme url then url else ''https://'' @ url))"

definition url_body :: "string \<Rightarrow> string" where
  \<comment> \<open>What follows the scheme of \<open>url\<close>: the rest after a leading \<open>http://\<close> or
      \<open>https://\<close>, the whole string when it has neither.\<close>
  "url_body url =
     (if startswith url ''http://'' then drop (length ''http://'') url
      else if startswith url ''https://'' then drop (length ''https://'') url
      else url)"

section \<open>utils.py: clean_text\<close>

definition is_space :: "char \<Rightarrow> bool" where
  \<comment> \<open>Python's whitespace (\<open>str.strip\<close>, the regex class \<open>\s\<close>) among the code points below 256.\<close>
  "is_space c =
     (let n = (of_char c :: nat)
      in (9 \<le> n \<and> n \<le> 13) \<or> (28 \<le> n \<and> n \<le> 32) \<or> n = 133 \<or> n = 160)"

definition strip :: "string \<Rightarrow> string" where
  "strip s = rstrip_chars is_space (dropWhile is_space s)"

fun sub_ws :: "bool \<Rightarrow> string \<Rightarrow> string" where
  \<comment> \<open>\<open>re.sub(r'\s+', ' ', s)\<close>; the flag says that the previous character was whitespace.\<close>
  "sub_ws prev [] = []"
| "sub_ws prev (c # cs) =
     (if is_space c then (if prev then sub_ws True cs else CHR '' '' # sub_ws True cs)
      else c # sub_ws False cs)"

definition is_category_C :: "char \<Rightarrow> bool" where
  \<comment> \<open>\<open>unicodedata.category(char)[0] == 'C'\<close> below 256: Cc is 0..31 and 127..159, Cf is 173.\<close>
  "is_category_C c =
     (let n = (of_char c :: nat) in n \<le> 31 \<or> (127 \<le> n \<and> n \<le> 159) \<or> n = 173)"

definition html_unescape :: "(string \<Rightarrow> string) \<Rightarrow> string \<Rightarrow> string" where
  \<comment> \<open>\<open>html.unescape\<close> returns its argument when it holds no ampersand; the replacement of
      character references is the library's, taken as the parameter \<open>charrefs\<close>.\<close>
  "html_unescape charrefs s = (if CHR ''&'' \<in> set s then charrefs s else s)"

definition clean_text :: "(string \<Rightarrow> string) \<Rightarrow> string \<Rightarrow> string" where
  "clean_text charrefs text =
     (if text = [] then []
      else html_unescape charrefs
             (filter (\<lambda>c. \<not> is_category_C c \<or> c \<in> {CHR 0x0A, CHR 0x0D, CHR 0x09})
                (sub_ws False (strip text))))"

definition lower_char :: "char \<Rightarrow> char" where
  \<comment> \<open>\<open>str.lower\<close> on one code point below 256.\<close>
  "lower_char c =
     (let n = (of_char c :: nat)
      in if (65 \<le> n \<and> n \<le> 90) \<or> (192 \<le> n \<and> n \<le> 222 \<and> n \<noteq> 215)
         then char_of (n + 32) else c)"

definition lower :: "string \<Rightarrow> string" where
  "lower s = map lower_char s"

section \<open>Articles and library functions\<close>

text \<open>
  A dictionary entry that the code reads with \<open>get\<close> has three states: the key is
  absent, the key holds \<open>None\<close>, or it holds a value.
\<close>

datatype 'a field = Absent | Null | Val 'a

text \<open>
  The article dictionary, with the keys that the modelled operations read. For \<open>title\<close>,
  \<open>url\<close>, \<open>summary\<close>, \<open>source\<close> and \<open>domain\<close> the empty string also stands for an
  absent key, since these are read with the default \<open>''\<close>; other values than strings
  under these keys are not modelled. \<open>word_count\<close> is \<open>None\<close> when the key is absent.
\<close>

record article =
  title :: string
  url :: string
  summary :: string
  published :: "string field"
  source :: string
  domain :: string
  word_count :: "int option"

text \<open>
  Library functions the utilities call: the character-reference replacement of
  \<open>html.unescape\<close> and \<open>hashlib.md5(s.encode()).hexdigest()\<close>.
\<close>

record libs =
  charrefs :: "string \<Rightarrow> string"
  md5_hexdigest :: "string \<Rightarrow> string"

section \<open>utils.py: deduplicate_articles\<close>

record dedup_state =
  seen_urls :: "string set"
  seen_titles :: "string set"
  deduped :: "article list"

definition normalized_title :: "libs \<Rightarrow> article \<Rightarrow> string" where
  "normalized_title L a = lower (clean_text (charrefs L) (title a))"

definition is_similar :: "string set \<Rightarrow> string \<Rightarrow> bool" where
  \<comment> \<open>The inner loop over \<open>seen_titles\<close>; the set holds what the outer loop added to it.\<close>
  "is_similar seen nt =
     (\<exists>existing_title \<in> seen.
        length nt > 20 \<and> length existing_title > 20 \<and> take 50 nt = take 50 existing_title)"

definition dedup_step :: "libs \<Rightarrow> dedup_state \<Rightarrow> article \<Rightarrow> dedup_state" where
  "dedup_step L st a =
     (let nu = normalize_url (url a);
          nt = normalized_title L a;
          title_hash = md5_hexdigest L nt
      in if nu \<noteq> [] \<and> nu \<in> seen_urls st then st
         else if title_hash \<in> seen_titles st then st
         else if is_similar (seen_titles st) nt then st
         else \<lparr>seen_urls = (if nu \<noteq> [] then insert nu (seen_urls st) else seen_urls st),
               seen_titles = (if nt \<noteq> [] then insert title_hash (seen_titles st)
                              else seen_titles st),
               deduped = deduped st @ [a]\<rparr>)"

definition deduplicate_articles :: "libs \<Rightarrow> article list \<Rightarrow> article list" where
  "deduplicate_articles L articles =
     (if articles = [] then articles
      else deduped (foldl (dedup_step L)
                      \<lparr>seen_urls = {}, seen_titles = {}, deduped = []\<rparr> articles))"

text \<open>The two articles of the specification's near-duplicate example, and two more.\<close>

definition blank_article :: article where
  "blank_article = \<lparr>title = [], url = [], summary = [], published = Absent,
                     source = [], domain = [], word_count = None\<rparr>"

definition article_extra :: article where
  "article_extra = blank_article
     \<lparr>title := ''Breaking News About The Economy And Markets Today Extra'',
      url := ''https://a.example/extra''\<rparr>"

definition article_other :: article where
  "article_other = blank_article
     \<lparr>title := ''Breaking News About The Economy And Markets Today Other'',
      url := ''https://b.example/other''\<rparr>"

definition article_rally :: article where
  "article_rally = blank_article
     \<lparr>title := ''Markets Rally'', url := ''https://b.example/other/''\<rparr>"

definition article_extra_copy :: article where
  "article_extra_copy = blank_article
     \<lparr>title := ''Breaking News About The Economy And Markets Today Extra'',
      url := ''b.example/other''\<rparr>"

text \<open>
  MD5 on the strings that the examples hash (the digests are the real ones; every other
  string gets the digest of the empty string), and \<open>html.unescape\<close> on strings without
  character references.
\<close>

definition example_libs :: libs where
  "example_libs =
     \<lparr>charrefs = (\<lambda>s. s),
      md5_hexdigest = (\<lambda>s.
        if s = ''breaking news about the economy and markets today extra''
          then ''9ec2631082624baaeb2298870d758e3f''
        else if s = ''breaking news about the economy and markets today other''
          then ''2ccba51e98f917488f9cf7c14a2bc890''
        else if s = ''markets rally'' then ''da00daac259a126572387fdd7bdf6f5b''
        else if s = ''rates held steady'' then ''45bb24825fe912c8ff898c24e29141e4''
        else if s = ''https://news.example/rss'' then ''fc83938f593ace84db8a42b46e873c5e''
        else if s = ''https://news.example/story'' then ''9f56dcc25f705df232f9976643fd0f0d''
        else ''d41d8cd98f00b204e9800998ecf8427e'')\<rparr>"

text \<open>
  What the loop's two sets hold, as functions of the articles kept so far, and the
  loop's decision for one article in these terms.
\<close>

definition normalized_url :: "article \<Rightarrow> string" where
  "normalized_url a = normalize_url (url a)"

definition kept_urls :: "article list \<Rightarrow> string set" where
  "kept_urls kept = normalized_url ` set kept - {[]}"

definition kept_titles :: "libs \<Rightarrow> article list \<Rightarrow> string set" where
  "kept_titles L kept = md5_hexdigest L ` (normalized_title L ` set kept - {[]})"

definition title_suppressed :: "libs \<Rightarrow> article list \<Rightarrow> article \<Rightarrow> bool" where
  "title_suppressed L kept a =
     (md5_hexdigest L (normalized_title L a) \<in> kept_titles L kept \<or>
      is_similar (kept_titles L kept) (normalized_title L a))"

definition keeps :: "libs \<Rightarrow> article list \<Rightarrow> article \<Rightarrow> bool" where
  "keeps L kept a =
     (\<not> (normalized_url a \<noteq> [] \<and> normalized_url a \<in> kept_urls kept) \<and>
      \<not> title_suppressed L kept a)"

definition keep_step :: "libs \<Rightarrow> article list \<Rightarrow> article \<Rightarrow> article list" where
  "keep_step L kept a = (if keeps L kept a then kept @ [a] else kept)"

definition state_of :: "libs \<Rightarrow> article list \<Rightarrow> dedup_state" where
  "state_of L kept =
     \<lparr>seen_urls = kept_urls kept, seen_titles = kept_titles L kept, deduped = kept\<rparr>"

section \<open>Errors, time and the outside world\<close>

text \<open>A raised exception is a value: its class and its message.\<close>

datatype error_class = TypeError | KeyError | ValueError | JSONDecodeError | RequestException

datatype py_error = PyError error_class string

definition str_of_error :: "py_error \<Rightarrow> string" where
  "str_of_error e = (case e of PyError _ msg \<Rightarrow> msg)"

text \<open>
  A \<open>datetime\<close>: the wall-clock reading in microseconds since year 1, and the UTC
  offset, \<open>None\<close> for a naive value. \<open>datetime.now()\<close> is naive.
\<close>

record datetime =
  wall_us :: int
  utcoffset :: "int option"

definition sub_from_now :: "datetime \<Rightarrow> datetime \<Rightarrow> py_error + int" where
  \<comment> \<open>\<open>datetime.now() - t\<close>, a \<open>timedelta\<close> in microseconds; Python refuses to subtract
      an aware value from a naive one.\<close>
  "sub_from_now now t =
     (case utcoffset t of
        None \<Rightarrow> Inr (wall_us now - wall_us t)
      | Some _ \<Rightarrow> Inl (PyError TypeError
                        ''can't subtract offset-naive and offset-aware datetimes''))"

definition py_take :: "int \<Rightarrow> 'a list \<Rightarrow> 'a list" where
  \<comment> \<open>The slice \<open>xs[:n]\<close>; a negative \<open>n\<close> counts from the end.\<close>
  "py_take n xs = (if n < 0 then take (nat (int (length xs) + n)) xs else take (nat n) xs)"

text \<open>What \<open>feedparser.parse\<close> returns, with the attributes the code reads.\<close>

record feed_entry =
  e_title :: "string option"
  e_link :: "string option"
  e_summary :: "string option"
  e_published :: "string option"
  e_updated :: "string option"

record parsed_feed =
  bozo :: bool
  entries :: "feed_entry list"
  feed_title :: "string option"

text \<open>
  The collaborators of the pipeline: the clock, the date parsers and formatters, HTTP,
  the feed parser and \<open>urlparse(u).netloc\<close>. A parser returns \<open>None\<close> where the
  library raises. \<open>llm_respond\<close> is the language model behind \<open>LLMClient\<close>: the text it
  answers to the ranking prompt built from the candidates and the topic, \<open>None\<close> when the
  call fails. \<open>set_order\<close> is the order in which \<open>list(set(xs))\<close> enumerates the strings
  of \<open>xs\<close>; it depends on the hash seed of the process.
\<close>

record world =
  now :: datetime
  date_parse :: "string \<Rightarrow> datetime option"
  fromisoformat :: "string \<Rightarrow> datetime option"
  isoformat :: "datetime \<Rightarrow> string"
  strftime_BdY :: "datetime \<Rightarrow> string"
  http_get :: "string \<Rightarrow> py_error + string"
  feed_parse :: "string \<Rightarrow> parsed_feed"
  netloc :: "string \<Rightarrow> string option"
  llm_respond :: "article list \<Rightarrow> string \<Rightarrow> string option"
  set_order :: "string list \<Rightarrow> string list"

section \<open>config.py\<close>

record config =
  cache_ttl :: int
  sources :: "(string \<times> string list) list"
  interests :: "string list"
  max_articles_per_feed :: int
  exclude_domains :: "string list"
  keywords_boost :: "string list"
  keywords_filter :: "string list"
  llm_provider :: "string option"
  llm_api_key :: "string option"

fun contains :: "string \<Rightarrow> string \<Rightarrow> bool" where
  \<comment> \<open>\<open>needle in haystack\<close> on strings\<close>
  "contains needle [] = (needle = [])"
| "contains needle (c # cs) = (prefix needle (c # cs) \<or> contains needle cs)"

definition get_sources_for_topic :: "config \<Rightarrow> string \<Rightarrow> string list" where
  "get_sources_for_topic C topic =
     (case map_of (sources C) (lower topic) of
        Some urls \<Rightarrow> urls
      | None \<Rightarrow>
          (let matches = concat (map snd (filter
                 (\<lambda>(category, urls). contains (lower topic) (lower category) \<or>
                                      contains (lower category) (lower topic))
                 (sources C)))
           in if matches = []
              then (case map_of (sources C) ''general'' of Some urls \<Rightarrow> urls | None \<Rightarrow> [])
              else matches))"

section \<open>utils.py: extract_domain\<close>

definition extract_domain :: "world \<Rightarrow> string \<Rightarrow> string" where
  "extract_domain W u =
     (if u = [] then []
      else case netloc W (normalize_url u) of
             None \<Rightarrow> []
           | Some n \<Rightarrow> (let d = lower n in if startswith d ''www.'' then drop 4 d else d))"

section \<open>The cache files\<close>

text \<open>
  A cache file, by what reading it does: text that \<open>json.load\<close> rejects, JSON that is not
  an object, or an object. Of an object the code reads the \<open>timestamp\<close> entry (absent,
  not a string, or a string) and the payload.
\<close>

datatype ts_value = TsAbsent | TsNotStr | TsStr string

datatype 'p cache_file = NotJson | NotDict | Dict ts_value 'p

datatype 'p cache_read = Hit 'p | Miss | Raises py_error

definition cache_lookup :: "world \<Rightarrow> config \<Rightarrow> 'p cache_file option \<Rightarrow> 'p cache_read" where
  \<comment> \<open>The cache check of \<open>search_feeds\<close> and \<open>fetch_article\<close>, up to the TTL test. The
      \<open>except\<close> clause catches \<open>JSONDecodeError\<close>, \<open>KeyError\<close> and \<open>ValueError\<close>.\<close>
  "cache_lookup W C file =
     (case file of
        None \<Rightarrow> Miss
      | Some NotJson \<Rightarrow> Miss
      | Some NotDict \<Rightarrow> Raises (PyError TypeError ''list indices must be integers or slices, not str'')
      | Some (Dict TsAbsent p) \<Rightarrow> Miss
      | Some (Dict TsNotStr p) \<Rightarrow>
          Raises (PyError TypeError ''fromisoformat: argument must be str'')
      | Some (Dict (TsStr s) p) \<Rightarrow>
          (case fromisoformat W s of
             None \<Rightarrow> Miss
           | Some cache_time \<Rightarrow>
               (case sub_from_now (now W) cache_time of
                  Inl e \<Rightarrow> Raises e
                | Inr age \<Rightarrow> if age < cache_ttl C * 1000000 then Hit p else Miss)))"

section \<open>tools.py: search_feeds\<close>

record search_response =
  sr_success :: bool
  sr_error :: "string option"
  sr_articles :: "article list"
  sr_sources_used :: "string list"
  sr_errors :: "string list"

record feeds_state =
  fs_articles :: "article list"
  fs_errors :: "string list"
  fs_cache :: "string \<rightharpoonup> article list option cache_file"

definition entry_published :: "world \<Rightarrow> feed_entry \<Rightarrow> string field" where
  \<comment> \<open>\<open>published\<close>, else \<open>updated\<close>; an unparseable date leaves \<open>None\<close> in the dictionary.\<close>
  "entry_published W e =
     (let from_updated = (\<lambda>published.
            case e_updated e of
              None \<Rightarrow> published
            | Some s \<Rightarrow> (case date_parse W s of
                           None \<Rightarrow> published
                         | Some d \<Rightarrow> Val (isoformat W d)));
          published =
            (case e_published e of
               None \<Rightarrow> Null
             | Some s \<Rightarrow> (case date_parse W s of
                            None \<Rightarrow> Null
                          | Some d \<Rightarrow> Val (isoformat W d)))
      in if published = Null \<or> published = Val [] then from_updated published else published)"

definition entry_article :: "libs \<Rightarrow> world \<Rightarrow> parsed_feed \<Rightarrow> string \<Rightarrow> feed_entry \<Rightarrow> article" where
  "entry_article L W feed feed_url e =
     \<lparr>title = clean_text (charrefs L) (case e_title e of None \<Rightarrow> ''No title'' | Some t \<Rightarrow> t),
      url = normalize_url (case e_link e of None \<Rightarrow> [] | Some l \<Rightarrow> l),
      summary = clean_text (charrefs L) (case e_summary e of None \<Rightarrow> [] | Some s \<Rightarrow> s),
      published = entry_published W e,
      source = (case feed_title feed of None \<Rightarrow> extract_domain W feed_url | Some t \<Rightarrow> t),
      domain = extract_domain W (case e_link e of None \<Rightarrow> [] | Some l \<Rightarrow> l),
      word_count = None\<rparr>"

definition feed_error :: "string \<Rightarrow> py_error \<Rightarrow> string" where
  "feed_error feed_url e = ''Error fetching feed '' @ feed_url @ '': '' @ str_of_error e"

definition fetch_feed :: "libs \<Rightarrow> world \<Rightarrow> config \<Rightarrow> feeds_state \<Rightarrow> string \<Rightarrow> feeds_state" where
  \<comment> \<open>The request, the parse and the cache write of one loop iteration.\<close>
  "fetch_feed L W C st feed_url =
     (case http_get W feed_url of
        Inl e \<Rightarrow> st\<lparr>fs_errors := fs_errors st @ [feed_error feed_url e]\<rparr>
      | Inr content \<Rightarrow>
          (let feed = feed_parse W content
           in if bozo feed \<and> entries feed = []
              then st\<lparr>fs_errors := fs_errors st @ [''Failed to parse feed: '' @ feed_url]\<rparr>
              else
                (let feed_articles =
                       filter (\<lambda>a. domain a \<notin> set (exclude_domains C))
                         (map (entry_article L W feed feed_url)
                            (py_take (max_articles_per_feed C) (entries feed)))
                 in st\<lparr>fs_articles := fs_articles st @ feed_articles,
                        fs_cache := (fs_cache st)(md5_hexdigest L feed_url \<mapsto>
                           Dict (TsStr (isoformat W (now W))) (Some feed_articles))\<rparr>)))"

definition feed_step :: "libs \<Rightarrow> world \<Rightarrow> config \<Rightarrow> feeds_state \<Rightarrow> string \<Rightarrow> feeds_state" where
  \<comment> \<open>One iteration of the loop over the feeds; every exception ends the iteration.\<close>
  "feed_step L W C st feed_url =
     (case cache_lookup W C (fs_cache st (md5_hexdigest L feed_url)) of
        Raises e \<Rightarrow> st\<lparr>fs_errors := fs_errors st @ [feed_error feed_url e]\<rparr>
      | Hit None \<Rightarrow> fetch_feed L W C st feed_url
      | Hit (Some cached) \<Rightarrow>
          st\<lparr>fs_articles := fs_articles st @ py_take (max_articles_per_feed C) cached\<rparr>
      | Miss \<Rightarrow> fetch_feed L W C st feed_url)"

datatype sort_key = KNone | KStr string

definition published_key :: "article \<Rightarrow> sort_key" where
  \<comment> \<open>\<open>x.get('published', '')\<close>: the default is used for an absent key only.\<close>
  "published_key a =
     (case published a of Absent \<Rightarrow> KStr [] | Null \<Rightarrow> KNone | Val s \<Rightarrow> KStr s)"

definition key_string :: "sort_key \<Rightarrow> string" where
  "key_string k = (case k of KNone \<Rightarrow> [] | KStr s \<Rightarrow> s)"

definition type_name :: "sort_key \<Rightarrow> string" where
  "type_name k = (case k of KNone \<Rightarrow> ''NoneType'' | KStr s \<Rightarrow> ''str'')"

definition quoted :: "string \<Rightarrow> string" where
  "quoted s = [CHR 0x27] @ s @ [CHR 0x27]"

definition compare_error :: "sort_key \<Rightarrow> sort_key \<Rightarrow> py_error" where
  \<comment> \<open>the \<open>TypeError\<close> of \<open>a < b\<close> when one of the two is \<open>None\<close>\<close>
  "compare_error a b =
     PyError TypeError
       (quoted ''<'' @ '' not supported between instances of '' @ quoted (type_name a) @
        '' and '' @ quoted (type_name b))"

definition sort_by_published :: "article list \<Rightarrow> py_error + article list" where
  \<comment> \<open>\<open>articles.sort(key=..., reverse=True)\<close>. A list of two or more elements has each key
      compared at least once, and a comparison with \<open>None\<close> raises; the sort is stable, and
      \<open>reverse=True\<close> keeps the order of equal keys. The list is reversed before it is
      sorted, so the first comparison is of the key before the last with the last key, and
      the later ones compare a new key with keys already seen. That decides the message
      for lists of fewer than 64 elements, which are sorted without merging; for a longer
      list the two type names of the message can come in the other order.\<close>
  "sort_by_published xs =
     (if 2 \<le> length xs \<and> (\<exists>a \<in> set xs. published_key a = KNone)
      then Inl (if published_key (last xs) = KNone
                then compare_error (published_key (xs ! (length xs - 2))) KNone
                else compare_error KNone (KStr []))
      else Inr (rev (sort_key (\<lambda>a. key_string (published_key a)) (rev xs))))"

definition resolve_sources :: "config \<Rightarrow> string option \<Rightarrow> string list option \<Rightarrow> string list" where
  "resolve_sources C topic srcs =
     (let by_topic =
            (case topic of
               Some (c # cs) \<Rightarrow> get_sources_for_topic C (c # cs)
             | _ \<Rightarrow> concat (map (get_sources_for_topic C) (interests C)))
      in case srcs of
           Some (u # us) \<Rightarrow> u # us
         | _ \<Rightarrow> by_topic)"

definition collect_feeds ::
  "libs \<Rightarrow> world \<Rightarrow> config \<Rightarrow> (string \<rightharpoonup> article list option cache_file) \<Rightarrow>
   string list \<Rightarrow> feeds_state" where
  \<comment> \<open>The loop over \<open>feed_urls[:5]\<close>.\<close>
  "collect_feeds L W C cache feed_urls =
     foldl (feed_step L W C) \<lparr>fs_articles = [], fs_errors = [], fs_cache = cache\<rparr>
       (take 5 feed_urls)"

definition search_feeds ::
  "libs \<Rightarrow> world \<Rightarrow> config \<Rightarrow> (string \<rightharpoonup> article list option cache_file) \<Rightarrow>
   string option \<Rightarrow> string list option \<Rightarrow> int \<Rightarrow>
   py_error + search_response \<times> (string \<rightharpoonup> article list option cache_file)" where
  \<comment> \<open>Returns the response and the cache directory after the call, or the exception that
      leaves the function.\<close>
  "search_feeds L W C cache topic srcs limit =
     (let feed_urls = resolve_sources C topic srcs
      in if feed_urls = []
         then Inr (\<lparr>sr_success = False,
                    sr_error = Some ''No sources found for the given topic or criteria'',
                    sr_articles = [], sr_sources_used = [], sr_errors = []\<rparr>, cache)
         else
           (let st = collect_feeds L W C cache feed_urls
            in case sort_by_published (deduplicate_articles L (fs_articles st)) of
                 Inl e \<Rightarrow> Inl e
               | Inr by_date \<Rightarrow>
                   Inr (\<lparr>sr_success = True, sr_error = None,
                         sr_articles = py_take limit by_date,
                         sr_sources_used = feed_urls, sr_errors = fs_errors st\<rparr>,
                        fs_cache st)))"

section \<open>An example feed\<close>

text \<open>
  One feed with two entries; the second has neither a \<open>published\<close> nor an \<open>updated\<close>
  date. \<open>dateutil\<close> reads the RSS date of the first as an aware value.
\<close>

definition example_feed :: parsed_feed where
  "example_feed =
     \<lparr>bozo = False,
      entries =
        [\<lparr>e_title = Some ''Markets Rally'', e_link = Some ''https://news.example/a'',
          e_summary = Some ''Stocks rose.'',
          e_published = Some ''Mon, 01 Jan 2024 10:00:00 GMT'', e_updated = None\<rparr>,
         \<lparr>e_title = Some ''Rates Held Steady'', e_link = Some ''https://news.example/b'',
          e_summary = Some ''No change.'', e_published = None, e_updated = None\<rparr>],
      feed_title = Some ''Example News''\<rparr>"

definition example_world :: world where
  "example_world =
     \<lparr>now = \<lparr>wall_us = 63840000000000000, utcoffset = None\<rparr>,
      date_parse = (\<lambda>s.
        if s = ''Mon, 01 Jan 2024 10:00:00 GMT'' \<or> s = ''2024-01-01T10:00:00+00:00''
          then Some \<lparr>wall_us = 63839700000000000, utcoffset = Some 0\<rparr>
        else if s = ''2024-01-01T10:00:00''
          then Some \<lparr>wall_us = 63839700000000000, utcoffset = None\<rparr>
        else if s = ''2024-01-03T08:00:00''
          then Some \<lparr>wall_us = 63839865600000000, utcoffset = None\<rparr>
        else None),
      fromisoformat = (\<lambda>s.
        if s = ''2024-01-01T10:00:00+00:00''
          then Some \<lparr>wall_us = 63839700000000000, utcoffset = Some 0\<rparr>
        else if s = ''2024-01-04T20:50:00''
          then Some \<lparr>wall_us = 63839998200000000, utcoffset = None\<rparr>
        else if s = ''2024-01-04T20:20:00''
          then Some \<lparr>wall_us = 63839996400000000, utcoffset = None\<rparr>
        else None),
      isoformat = (\<lambda>d.
        if d = \<lparr>wall_us = 63839700000000000, utcoffset = Some 0\<rparr>
          then ''2024-01-01T10:00:00+00:00''
        else if d = \<lparr>wall_us = 63839700000000000, utcoffset = None\<rparr>
          then ''2024-01-01T10:00:00''
        else ''2024-01-04T21:20:00''),
      strftime_BdY = (\<lambda>d.
        if wall_us d = 63839700000000000 then ''January 01, 2024''
        else if wall_us d = 63839865600000000 then ''January 03, 2024''
        else ''January 04, 2024''),
      http_get = (\<lambda>u.
        if u = ''https://news.example/rss'' then Inr ''<rss/>''
        else if u = ''https://news.example/story'' then Inr ''<html></html>''
        else Inl (PyError RequestException ''404 Client Error'')),
      feed_parse = (\<lambda>content. example_feed),
      netloc = (\<lambda>u. Some ''news.example''),
      llm_respond = (\<lambda>candidates topic. Some ''Ranking: [1, 7, 0]''),
      set_order = remdups\<rparr>"

definition example_config :: config where
  "example_config =
     \<lparr>cache_ttl = 3600, sources = [], interests = [], max_articles_per_feed = 10,
      exclude_domains = [], keywords_boost = [], keywords_filter = [],
      llm_provider = None, llm_api_key = None\<rparr>"

text \<open>The two articles that \<open>search_feeds\<close> builds from the example feed.\<close>

definition rally_from_feed :: article where
  "rally_from_feed =
     \<lparr>title = ''Markets Rally'', url = ''https://news.example/a'', summary = ''Stocks rose.'',
      published = Val ''2024-01-01T10:00:00+00:00'', source = ''Example News'',
      domain = ''news.example'', word_count = None\<rparr>"

definition rates_from_feed :: article where
  "rates_from_feed =
     \<lparr>title = ''Rates Held Steady'', url = ''https://news.example/b'', summary = ''No change.'',
      published = Null, source = ''Example News'',
      domain = ''news.example'', word_count = None\<rparr>"

section \<open>tools.py: fetch_article\<close>

text \<open>
  The extraction libraries. \<open>trafilatura.extract\<close> returns nothing, text that is not
  JSON, or JSON; of the JSON object the code reads the entries below, each with the
  default \<open>''\<close>. The fallback is \<open>readability\<close>'s \<open>Document\<close> (its title, and the
  text of its summary as \<open>BeautifulSoup\<close> extracts it) and \<open>BeautifulSoup\<close> on the
  page: the text of the \<open>title\<close> tag and the \<open>content\<close> of the first \<open>meta\<close> tag
  with a given attribute, \<open>None\<close> where there is no such tag.
\<close>

record traf_content =
  t_text :: string
  t_title :: string
  t_author :: string
  t_date :: string
  t_description :: string
  t_language :: string

datatype traf_result = TrafNone | TrafNotJson | TrafJson traf_content

record readable =
  doc_title :: string
  text_content :: string

record extractors =
  trafilatura_extract :: "string \<Rightarrow> string \<Rightarrow> py_error + traf_result"
  readability :: "string \<Rightarrow> py_error + readable"
  soup_title :: "string \<Rightarrow> string option"
  soup_meta :: "string \<Rightarrow> string \<Rightarrow> string \<Rightarrow> string option"

record article_data =
  ad_title :: string
  ad_text :: string
  ad_author :: string
  ad_published :: string
  ad_description :: string
  ad_url :: string
  ad_domain :: string
  ad_language :: string
  ad_word_count :: nat
  extraction_method :: string

record fetch_response =
  fr_success :: bool
  fr_error :: "string option"
  fr_data :: "article_data option"
  fr_url :: string
  fr_fetched_at :: string

fun count_words :: "bool \<Rightarrow> string \<Rightarrow> nat" where
  \<comment> \<open>\<open>len(s.split())\<close>; the flag says that the previous character was inside a word.\<close>
  "count_words inside [] = 0"
| "count_words inside (c # cs) =
     (if is_space c then count_words False cs
      else (if inside then 0 else 1) + count_words True cs)"

definition primary_extraction ::
  "world \<Rightarrow> extractors \<Rightarrow> string \<Rightarrow> string \<Rightarrow> py_error + article_data option" where
  "primary_extraction W X html u =
     (case trafilatura_extract X html u of
        Inl e \<Rightarrow> Inl e
      | Inr TrafNone \<Rightarrow> Inr None
      | Inr TrafNotJson \<Rightarrow> Inr None
      | Inr (TrafJson c) \<Rightarrow>
          Inr (if length (t_text c) > 200
               then Some \<lparr>ad_title = t_title c, ad_text = t_text c, ad_author = t_author c,
                          ad_published = t_date c, ad_description = t_description c,
                          ad_url = u, ad_domain = extract_domain W u,
                          ad_language = t_language c,
                          ad_word_count = count_words False (t_text c),
                          extraction_method = ''trafilatura''\<rparr>
               else None))"

definition first_meta :: "extractors \<Rightarrow> string \<Rightarrow> (string \<times> string) \<Rightarrow> (string \<times> string) \<Rightarrow> string" where
  \<comment> \<open>\<open>soup.find('meta', attrs=a) or soup.find('meta', attrs=b)\<close>, then its \<open>content\<close>.\<close>
  "first_meta X html a b =
     (case soup_meta X html (fst a) (snd a) of
        Some c \<Rightarrow> c
      | None \<Rightarrow> (case soup_meta X html (fst b) (snd b) of Some c \<Rightarrow> c | None \<Rightarrow> []))"

definition fallback_extraction ::
  "libs \<Rightarrow> world \<Rightarrow> extractors \<Rightarrow> string \<Rightarrow> string \<Rightarrow> py_error + article_data" where
  "fallback_extraction L W X html u =
     (case readability X html of
        Inl e \<Rightarrow> Inl e
      | Inr doc \<Rightarrow>
          (let title = (if doc_title doc \<noteq> [] then doc_title doc
                        else (case soup_title X html of None \<Rightarrow> [] | Some t \<Rightarrow> strip t));
               author = first_meta X html (''name'', ''author'') (''property'', ''article:author'');
               published = first_meta X html (''property'', ''article:published_time'')
                             (''name'', ''date'');
               description = first_meta X html (''name'', ''description'')
                               (''property'', ''og:description'')
           in Inr \<lparr>ad_title = clean_text (charrefs L) title,
                   ad_text = clean_text (charrefs L) (text_content doc),
                   ad_author = clean_text (charrefs L) author,
                   ad_published = published,
                   ad_description = clean_text (charrefs L) description,
                   ad_url = u, ad_domain = extract_domain W u, ad_language = [],
                   ad_word_count = count_words False (text_content doc),
                   extraction_method = ''readability''\<rparr>))"

definition extract_article ::
  "libs \<Rightarrow> world \<Rightarrow> extractors \<Rightarrow> string \<Rightarrow> py_error + article_data option" where
  \<comment> \<open>The body of the \<open>try\<close> block up to \<open>if article_data:\<close>. A dictionary with entries is
      true, so after the fallback \<open>article_data\<close> is never false.\<close>
  "extract_article L W X u =
     (case http_get W u of
        Inl e \<Rightarrow> Inl e
      | Inr html \<Rightarrow>
          (case primary_extraction W X html u of
             Inl e \<Rightarrow> Inl e
           | Inr (Some d) \<Rightarrow> Inr (Some d)
           | Inr None \<Rightarrow>
               (case fallback_extraction L W X html u of
                  Inl e \<Rightarrow> Inl e
                | Inr d \<Rightarrow> Inr (Some d))))"

definition failure_response :: "world \<Rightarrow> string \<Rightarrow> string \<Rightarrow> fetch_response" where
  "failure_response W u msg =
     \<lparr>fr_success = False, fr_error = Some msg, fr_data = None, fr_url = u,
      fr_fetched_at = isoformat W (now W)\<rparr>"

definition fetch_article ::
  "libs \<Rightarrow> world \<Rightarrow> extractors \<Rightarrow> config \<Rightarrow> (string \<rightharpoonup> fetch_response cache_file) \<Rightarrow> string \<Rightarrow>
   py_error + fetch_response \<times> (string \<rightharpoonup> fetch_response cache_file)" where
  \<comment> \<open>The cache check is outside the \<open>try\<close> block. The file written holds the article's
      entries, \<open>fetched_at\<close>, \<open>success\<close> and \<open>error\<close>; it has no \<open>timestamp\<close> entry.\<close>
  "fetch_article L W X C cache url0 =
     (let u = normalize_url url0;
          cache_key = md5_hexdigest L u
      in case cache_lookup W C (cache cache_key) of
           Raises e \<Rightarrow> Inl e
         | Hit cached_data \<Rightarrow> Inr (cached_data, cache)
         | Miss \<Rightarrow>
             (case extract_article L W X u of
                Inl e \<Rightarrow>
                  Inr (failure_response W u (''Error fetching article: '' @ str_of_error e), cache)
              | Inr None \<Rightarrow>
                  Inr (failure_response W u
                         ''Failed to extract meaningful content from the article'', cache)
              | Inr (Some d) \<Rightarrow>
                  (let r = \<lparr>fr_success = True, fr_error = None, fr_data = Some d, fr_url = u,
                            fr_fetched_at = isoformat W (now W)\<rparr>
                   in Inr (r, cache(cache_key \<mapsto> Dict TsAbsent r)))))"

definition finds_no_text :: "traf_result \<Rightarrow> bool" where
  "finds_no_text t = (case t of TrafNone \<Rightarrow> True | TrafNotJson \<Rightarrow> True | TrafJson c \<Rightarrow> t_text c = [])"

text \<open>
  A page on which neither extractor finds text; \<open>readability\<close> gives a page without a
  \<open>title\<close> tag the title \<open>[no-title]\<close>.
\<close>

definition example_extractors :: extractors where
  "example_extractors =
     \<lparr>trafilatura_extract = (\<lambda>html u. Inr TrafNone),
      readability = (\<lambda>html. Inr \<lparr>doc_title = ''[no-title]'', text_content = []\<rparr>),
      soup_title = (\<lambda>html. None),
      soup_meta = (\<lambda>html a v. None)\<rparr>"

section \<open>tools.py: rank_articles, the heuristic score\<close>

text \<open>
  Scores are Python floats; they are modelled as real numbers. The model is exact where
  every term is a whole number, that is, where the recency term is absent. With a
  recency term it differs from the code in two ways. Rounding is not modelled: a
  recency term of a date 364 or more days old is below the precision of the sum and the
  code's score is that of an article without a date. And for \<open>days_old\<close> from
  \<open>-6736\<close> to \<open>-6715\<close> the product \<open>10 * 0.9 ** days_old\<close> is \<open>inf\<close> in the code,
  a real number here. For \<open>days_old \<le> -6737\<close> the power \<open>0.9 ** days_old\<close> raises
  \<open>OverflowError\<close>, which is caught like every other exception of the recency block;
  this is modelled.
\<close>

definition recency_score :: "world \<Rightarrow> article \<Rightarrow> real" where
  \<comment> \<open>What the \<open>try\<close> block adds to the score; \<open>0\<close> when the block is skipped or raises.\<close>
  "recency_score W item =
     (case published item of
        Val (c # cs) \<Rightarrow>
          (case date_parse W (c # cs) of
             None \<Rightarrow> 0
           | Some pub_date \<Rightarrow>
               (case sub_from_now (now W) pub_date of
                  Inl e \<Rightarrow> 0
                | Inr delta \<Rightarrow>
                    (let days_old = delta div 86400000000
                     in if days_old \<le> - 6737 then 0
                        else max 0 (10 * power_int (9 / 10) days_old))))
      | _ \<Rightarrow> 0)"

definition boost_step :: "string \<Rightarrow> string \<Rightarrow> real \<Rightarrow> string \<Rightarrow> real" where
  "boost_step title_lower summary_lower score keyword =
     (let keyword_lower = lower keyword;
          score1 = (if contains keyword_lower title_lower then score + 8 else score)
      in if contains keyword_lower summary_lower then score1 + 5 else score1)"

definition filter_step :: "string \<Rightarrow> string \<Rightarrow> real \<Rightarrow> string \<Rightarrow> real" where
  "filter_step title_lower summary_lower score keyword =
     (let keyword_lower = lower keyword;
          score1 = (if contains keyword_lower title_lower then score - 20 else score)
      in if contains keyword_lower summary_lower then score1 - 10 else score1)"

definition heuristic_score :: "world \<Rightarrow> config \<Rightarrow> string \<Rightarrow> article \<Rightarrow> real" where
  "heuristic_score W C topic item =
     (let score0 = 0 + recency_score W item;
          score1 = score0 + 2;
          title_lower = lower (title item);
          summary_lower = lower (summary item);
          topic_lower = lower topic;
          score2 = (if contains topic_lower title_lower then score1 + 15 else score1);
          score3 = (if contains topic_lower summary_lower then score2 + 10 else score2);
          score4 = foldl (boost_step title_lower summary_lower) score3 (keywords_boost C);
          score5 = foldl (filter_step title_lower summary_lower) score4 (keywords_filter C);
          wc = (case word_count item of
                  Some n \<Rightarrow> n
                | None \<Rightarrow> int (count_words False (summary item)))
      in if wc > 200 then score5 + 3 else if wc > 100 then score5 + 1 else score5)"

definition top_candidates :: "world \<Rightarrow> config \<Rightarrow> string \<Rightarrow> article list \<Rightarrow> article list" where
  \<comment> \<open>The stable sort by score, highest first, and its first 15 items.\<close>
  "top_candidates W C topic items =
     map fst (take 15 (rev (sort_key snd
       (rev (map (\<lambda>item. (item, heuristic_score W C topic item)) items)))))"

text \<open>
  The score as the specification states it: the recency term is \<open>10 * 0.9 ^ age\<close>,
  floored at 0, whenever the published date parses.
\<close>

definition stated_recency :: "world \<Rightarrow> article \<Rightarrow> real" where
  "stated_recency W item =
     (case published item of
        Val s \<Rightarrow>
          (case date_parse W s of
             None \<Rightarrow> 0
           | Some d \<Rightarrow>
               max 0 (10 * power_int (9 / 10) ((wall_us (now W) - wall_us d) div 86400000000)))
      | _ \<Rightarrow> 0)"

definition occurrences_score :: "real \<Rightarrow> real \<Rightarrow> string \<Rightarrow> string \<Rightarrow> string list \<Rightarrow> real" where
  \<comment> \<open>\<open>t\<close> for every keyword found in the title plus \<open>s\<close> for every one found in the summary\<close>
  "occurrences_score t s title_lower summary_lower keywords =
     (\<Sum>k\<leftarrow>keywords. (if contains (lower k) title_lower then t else 0) +
                      (if contains (lower k) summary_lower then s else 0))"

definition length_bonus :: "article \<Rightarrow> real" where
  "length_bonus item =
     (let wc = (case word_count item of
                  Some n \<Rightarrow> n
                | None \<Rightarrow> int (count_words False (summary item)))
      in if wc > 200 then 3 else if wc > 100 then 1 else 0)"

definition stated_score :: "world \<Rightarrow> config \<Rightarrow> string \<Rightarrow> article \<Rightarrow> real" where
  "stated_score W C topic item =
     stated_recency W item + 2
     + occurrences_score 15 10 (lower (title item)) (lower (summary item)) [topic]
     + occurrences_score 8 5 (lower (title item)) (lower (summary item)) (keywords_boost C)
     - occurrences_score 20 10 (lower (title item)) (lower (summary item)) (keywords_filter C)
     + length_bonus item"

section \<open>llm_client.py: the ranking response\<close>

definition is_digit :: "char \<Rightarrow> bool" where
  \<comment> \<open>the regex class \<open>\d\<close> below 256\<close>
  "is_digit c = (let n = (of_char c :: nat) in 48 \<le> n \<and> n \<le> 57)"

definition is_word_char :: "char \<Rightarrow> bool" where
  \<comment> \<open>the regex class \<open>\w\<close> below 256\<close>
  "is_word_char c =
     (let n = (of_char c :: nat)
      in (48 \<le> n \<and> n \<le> 57) \<or> (65 \<le> n \<and> n \<le> 90) \<or> n = 95 \<or> (97 \<le> n \<and> n \<le> 122) \<or>
         n \<in> {170, 178, 179, 181, 185, 186, 188, 189, 190} \<or>
         (192 \<le> n \<and> n \<noteq> 215 \<and> n \<noteq> 247))"

definition in_array_class :: "char \<Rightarrow> bool" where
  \<comment> \<open>the regex class \<open>[\d,\s]\<close>\<close>
  "in_array_class c = (is_digit c \<or> c = CHR '','' \<or> is_space c)"

fun find_json_array :: "string \<Rightarrow> string option" where
  \<comment> \<open>\<open>re.search(r'\[[\d,\s]+\]', response)\<close>: the text between the brackets of the leftmost
      match. The class holds neither bracket, so a match at a bracket is the longest run of
      class characters after it, when that run is not empty and a closing bracket follows.\<close>
  "find_json_array [] = None"
| "find_json_array (c # cs) =
     (if c = CHR ''[''
         \<and> takeWhile in_array_class cs \<noteq> []
         \<and> (case dropWhile in_array_class cs of [] \<Rightarrow> False | d # ds \<Rightarrow> d = CHR '']'')
      then Some (takeWhile in_array_class cs)
      else find_json_array cs)"

fun split_commas :: "string \<Rightarrow> string list" where
  "split_commas [] = [[]]"
| "split_commas (c # cs) =
     (if c = CHR '','' then [] # split_commas cs
      else (case split_commas cs of [] \<Rightarrow> [[c]] | x # xs \<Rightarrow> (c # x) # xs))"

definition json_ws :: "char \<Rightarrow> bool" where
  \<comment> \<open>the whitespace of JSON: space, tab, line feed, carriage return\<close>
  "json_ws c = (c \<in> {CHR '' '', CHR 0x09, CHR 0x0A, CHR 0x0D})"

definition digits_value :: "string \<Rightarrow> nat" where
  "digits_value ds = foldl (\<lambda>n c. 10 * n + (of_char c - 48)) 0 ds"

definition json_number :: "string \<Rightarrow> nat option" where
  \<comment> \<open>One array element between two commas: a JSON integer (no leading zero) with
      JSON whitespace around it. Python refuses to convert more than 4300 digits.\<close>
  "json_number item =
     (let ds = rstrip_chars json_ws (dropWhile json_ws item)
      in if ds \<noteq> [] \<and> list_all is_digit ds \<and> (ds = ''0'' \<or> hd ds \<noteq> CHR ''0'')
            \<and> length ds \<le> 4300
         then Some (digits_value ds) else None)"

definition json_index_array :: "string \<Rightarrow> nat list option" where
  \<comment> \<open>\<open>json.loads\<close> on a bracketed text of digits, commas and whitespace; \<open>None\<close> where it
      raises. Only whitespace between the brackets is the empty array.\<close>
  "json_index_array inner =
     (if list_all json_ws inner then Some []
      else (let items = map json_number (split_commas inner)
            in if list_all (\<lambda>x. x \<noteq> None) items then Some (map the items) else None))"

fun word_runs :: "string \<Rightarrow> string \<Rightarrow> string list" where
  \<comment> \<open>the maximal runs of word characters; the first argument is the run being read, reversed\<close>
  "word_runs cur [] = (if cur = [] then [] else [rev cur])"
| "word_runs cur (c # cs) =
     (if is_word_char c then word_runs (c # cur) cs
      else (if cur = [] then [] else [rev cur]) @ word_runs [] cs)"

definition find_numbers :: "string \<Rightarrow> string list" where
  \<comment> \<open>\<open>re.findall(r'\b\d+\b', response)\<close>: the runs of word characters that are all digits\<close>
  "find_numbers response = filter (list_all is_digit) (word_runs [] response)"

definition parse_ranking_response :: "string \<Rightarrow> nat list option" where
  "parse_ranking_response response =
     (case find_json_array response of
        Some inner \<Rightarrow>
          (case json_index_array inner of
             None \<Rightarrow> None
           | Some indices \<Rightarrow> Some (take 5 indices))
      | None \<Rightarrow>
          (let numbers = find_numbers response
           in if numbers \<noteq> []
              then (if list_all (\<lambda>n. length n \<le> 4300) (take 5 numbers)
                    then Some (map digits_value (take 5 numbers)) else None)
              else None))"

definition llm_available :: "config \<Rightarrow> bool" where
  \<comment> \<open>\<open>bool(api_key and provider)\<close>\<close>
  "llm_available C =
     (case (llm_api_key C, llm_provider C) of
        (Some (k # ks), Some (p # ps)) \<Rightarrow> True
      | _ \<Rightarrow> False)"

definition llm_rank_articles :: "world \<Rightarrow> config \<Rightarrow> article list \<Rightarrow> string \<Rightarrow> article list option" where
  \<comment> \<open>\<open>LLMClient.rank_articles\<close>\<close>
  "llm_rank_articles W C articles topic =
     (if \<not> llm_available C then None
      else case llm_respond W articles topic of
             None \<Rightarrow> None
           | Some [] \<Rightarrow> None
           | Some (c # cs) \<Rightarrow>
               (case parse_ranking_response (c # cs) of
                  None \<Rightarrow> None
                | Some [] \<Rightarrow> None
                | Some (i # is) \<Rightarrow>
                    Some (map (\<lambda>i. articles ! i)
                            (filter (\<lambda>i. i < length articles) (i # is)))))"

section \<open>tools.py: rank_articles\<close>

definition rank_articles :: "world \<Rightarrow> config \<Rightarrow> article list \<Rightarrow> string \<Rightarrow> article list" where
  "rank_articles W C items topic =
     (if items = [] then []
      else
        (let candidates = top_candidates W C topic items;
             reranked = (if llm_available C then llm_rank_articles W C candidates topic
                         else None)
         in case reranked of
              Some (r # rs) \<Rightarrow> take 5 (r # rs)
            | _ \<Rightarrow> take 5 candidates))"

section \<open>tools.py: summarize_collection, the dates of the heuristic summary\<close>




text \<open>A configuration with a language model, and two articles to rank and summarize.\<close>

definition example_llm_config :: config where
  "example_llm_config =
     example_config\<lparr>llm_provider := Some ''openai'', llm_api_key := Some ''sk-example''\<rparr>"



text \<open>
  The example world with two other answers of the language model: an array whose usable
  indices come after five that are out of range, and a sentence.
\<close>

definition long_answer_world :: world where
  "long_answer_world =
     example_world\<lparr>llm_respond := (\<lambda>candidates topic. Some ''[20, 21, 22, 23, 24, 1, 0]'')\<rparr>"

definition prose_answer_world :: world where
  "prose_answer_world =
     example_world\<lparr>llm_respond :=
       (\<lambda>candidates topic. Some ''Sorry, I can only see 1 relevant article'')\<rparr>"

section \<open>Properties of normalize_url\<close>

lemma rstrip_chars_idem: "rstrip_chars P (rstrip_chars P s) = rstrip_chars P s"
  by (simp add: rstrip_chars_def)

lemma startswith_hd: "startswith s (c # p) \<Longrightarrow> s \<noteq> [] \<and> hd s = c"
  by (cases s) (auto simp: startswith_def)

lemma rstrip_chars_append:
  "rstrip_chars P b \<noteq> [] \<Longrightarrow> rstrip_chars P (a @ b) = a @ rstrip_chars P b"
  by (auto simp: rstrip_chars_def dropWhile_append)

lemma normalize_url_fixed:
  assumes "has_scheme v" and "rstrip_chars (\<lambda>c. c = CHR ''/'') v = v"
  shows "normalize_url v = v"
proof -
  from assms(1) have "v \<noteq> []"
    by (auto simp: has_scheme_def startswith_def)
  with assms show ?thesis
    by (simp add: normalize_url_def)
qed

lemma normalize_url_stripped:
  "rstrip_chars (\<lambda>c. c = CHR ''/'') (normalize_url u) = normalize_url u"
  by (simp add: normalize_url_def rstrip_chars_idem) (simp add: rstrip_chars_def)

lemma rstrip_chars_all:
  "\<forall>c\<in>set b. P c \<Longrightarrow> rstrip_chars P (a @ b) = rstrip_chars P a"
  by (simp add: rstrip_chars_def dropWhile_append)

lemma rstrip_chars_Nil_iff: "rstrip_chars P b = [] \<longleftrightarrow> (\<forall>c\<in>set b. P c)"
  by (simp add: rstrip_chars_def dropWhile_eq_Nil_conv)

lemma startswith_split: "startswith u p \<Longrightarrow> p @ drop (length p) u = u"
proof -
  assume "startswith u p"
  then have "take (length p) u = p"
    by (simp only: startswith_def)
  then have "p @ drop (length p) u = take (length p) u @ drop (length p) u"
    by (simp only:)
  then show ?thesis
    by (simp only: append_take_drop_id)
qed

text \<open>The string that is stripped is a scheme followed by the body of the input.\<close>

lemma with_scheme_split:
  obtains p where "p = ''http://'' \<or> p = ''https://''"
    and "(if has_scheme u then u else ''https://'' @ u) = p @ url_body u"
proof (cases "startswith u ''http://''")
  case True
  then have hs: "has_scheme u"
    by (simp only: has_scheme_def simp_thms)
  have b: "url_body u = drop (length ''http://'') u"
    using True by (simp only: url_body_def if_True)
  have "(if has_scheme u then u else ''https://'' @ u) = ''http://'' @ url_body u"
    by (simp only: hs if_True b startswith_split [OF True])
  then show ?thesis
    by (rule that [of "''http://''", rotated]) (simp only: simp_thms)
next
  case False
  show ?thesis
  proof (cases "startswith u ''https://''")
    case True
    then have hs: "has_scheme u"
      by (simp only: has_scheme_def simp_thms)
    have b: "url_body u = drop (length ''https://'') u"
      using True False by (simp only: url_body_def if_True if_False)
    have "(if has_scheme u then u else ''https://'' @ u) = ''https://'' @ url_body u"
      by (simp only: hs if_True b startswith_split [OF True])
    then show ?thesis
      by (rule that [of "''https://''", rotated]) (simp only: simp_thms)
  next
    case no: False
    from False no have hs: "\<not> has_scheme u"
      by (simp only: has_scheme_def simp_thms not_False_eq_True)
    have b: "url_body u = u"
      using False no by (simp only: url_body_def if_False)
    have "(if has_scheme u then u else ''https://'' @ u) = ''https://'' @ url_body u"
      by (simp only: hs if_False b)
    then show ?thesis
      by (rule that [of "''https://''", rotated]) (simp only: simp_thms)
  qed
qed

lemma has_scheme_stripped:
  assumes "p = ''http://'' \<or> p = ''https://''"
  shows "has_scheme (rstrip_chars (\<lambda>c. c = CHR ''/'') (p @ b)) \<longleftrightarrow>
         (\<exists>c\<in>set b. c \<noteq> CHR ''/'')"
proof (cases "\<exists>c\<in>set b. c \<noteq> CHR ''/''")
  case True
  then have "rstrip_chars (\<lambda>c. c = CHR ''/'') b \<noteq> []"
    by (simp add: rstrip_chars_Nil_iff)
  then have "rstrip_chars (\<lambda>c. c = CHR ''/'') (p @ b) = p @ rstrip_chars (\<lambda>c. c = CHR ''/'') b"
    by (rule rstrip_chars_append)
  moreover have "has_scheme (p @ x)" for x
    using assms by (auto simp: has_scheme_def startswith_def)
  ultimately show ?thesis using True by simp
next
  case False
  then have "rstrip_chars (\<lambda>c. c = CHR ''/'') (p @ b) = rstrip_chars (\<lambda>c. c = CHR ''/'') p"
    by (intro rstrip_chars_all) simp
  moreover have "rstrip_chars (\<lambda>c. c = CHR ''/'') p = ''http:'' \<or>
                 rstrip_chars (\<lambda>c. c = CHR ''/'') p = ''https:''"
    using assms by (auto simp: rstrip_chars_def)
  moreover have "\<not> has_scheme ''http:''" "\<not> has_scheme ''https:''"
    by (simp_all add: has_scheme_def startswith_def)
  ultimately have "\<not> has_scheme (rstrip_chars (\<lambda>c. c = CHR ''/'') (p @ b))"
    by metis
  with False show ?thesis by blast
qed

lemma has_scheme_normalize_url:
  assumes "u \<noteq> []"
  shows "has_scheme (normalize_url u) \<longleftrightarrow> (\<exists>c\<in>set (url_body u). c \<noteq> CHR ''/'')"
proof -
  obtain p where p: "p = ''http://'' \<or> p = ''https://''"
    and w: "(if has_scheme u then u else ''https://'' @ u) = p @ url_body u"
    by (rule with_scheme_split)
  have "normalize_url u = rstrip_chars (\<lambda>c. c = CHR ''/'') (p @ url_body u)"
    using assms by (simp only: normalize_url_def if_False w)
  with has_scheme_stripped [OF p, of "url_body u"] show ?thesis by simp
qed

text \<open>
  C6, as stated: \<open>normalize_url\<close> is idempotent on every non-empty string. The code
  strips every trailing slash, those of the scheme included, so at \<open>http://\<close> the first
  application gives \<open>http:\<close> and the second prepends a new scheme.
\<close>

theorem normalize_url_idempotent_counterexample:
  "''http://'' \<noteq> [] \<and>
   normalize_url ''http://'' = ''http:'' \<and>
   normalize_url (normalize_url ''http://'') = ''https://http:'' \<and>
   normalize_url (normalize_url ''http://'') \<noteq> normalize_url ''http://''"
  by (simp add: normalize_url_def has_scheme_def startswith_def rstrip_chars_def)

text \<open>
  C6, amended: for every non-empty \<open>u\<close>, the second application of \<open>normalize_url\<close>
  changes nothing exactly when the first result still begins with \<open>http://\<close> or
  \<open>https://\<close>, and that is so exactly when \<open>u\<close> has a character other than the slash
  after its scheme (anywhere, when \<open>u\<close> has no scheme). So \<open>normalize_url\<close> is
  idempotent on every such \<open>u\<close>, and on no non-empty \<open>u\<close> made of slashes only or of a
  scheme and slashes only.
\<close>

theorem normalize_url_idempotent_iff:
  assumes ne: "u \<noteq> []"
  shows "(normalize_url (normalize_url u) = normalize_url u) = has_scheme (normalize_url u) \<and>
         has_scheme (normalize_url u) = (\<exists>c\<in>set (url_body u). c \<noteq> CHR ''/'')"
proof (rule conjI)
  show "has_scheme (normalize_url u) = (\<exists>c\<in>set (url_body u). c \<noteq> CHR ''/'')"
    using ne by (rule has_scheme_normalize_url)
next
  show "(normalize_url (normalize_url u) = normalize_url u) = has_scheme (normalize_url u)"
  proof
    assume same: "normalize_url (normalize_url u) = normalize_url u"
    let ?v = "normalize_url u"
    obtain w where w: "has_scheme w" and v: "?v = rstrip_chars (\<lambda>c. c = CHR ''/'') w"
    proof (cases "has_scheme u")
      case True
      with ne that [of u] show ?thesis by (simp add: normalize_url_def)
    next
      case False
      have "has_scheme (''https://'' @ u)"
        by (simp add: has_scheme_def startswith_def)
      with False ne that [of "''https://'' @ u"] show ?thesis
        by (simp add: normalize_url_def)
    qed
    from w have hd: "w \<noteq> []" "hd w = CHR ''h''"
      unfolding has_scheme_def by (blast dest: startswith_hd)+
    then have "CHR ''h'' \<in> set (rev w)"
      using hd_in_set [of w] by simp
    then have "\<exists>c\<in>set (rev w). c \<noteq> CHR ''/''"
      by (rule bexI [rotated]) simp
    then have "dropWhile (\<lambda>c. c = CHR ''/'') (rev w) \<noteq> []"
      by (simp add: dropWhile_eq_Nil_conv)
    then have vne: "?v \<noteq> []"
      by (simp add: v rstrip_chars_def)
    show "has_scheme ?v"
    proof (rule ccontr)
      assume ns: "\<not> has_scheme ?v"
      from ns vne have "normalize_url ?v = rstrip_chars (\<lambda>c. c = CHR ''/'') (''https://'' @ ?v)"
        by (simp add: normalize_url_def)
      also have "\<dots> = ''https://'' @ rstrip_chars (\<lambda>c. c = CHR ''/'') ?v"
        by (rule rstrip_chars_append) (simp add: normalize_url_stripped vne)
      also have "\<dots> = ''https://'' @ ?v"
        by (simp add: normalize_url_stripped)
      finally have "length (normalize_url ?v) = 8 + length ?v" by simp
      with same show False by simp
    qed
  next
    assume "has_scheme (normalize_url u)"
    then show "normalize_url (normalize_url u) = normalize_url u"
      by (rule normalize_url_fixed) (rule normalize_url_stripped)
  qed
qed

theorem normalize_url_idempotent_iff_witness:
  "''example.com/news//'' \<noteq> [] \<and>
   normalize_url ''example.com/news//'' = ''https://example.com/news'' \<and>
   url_body ''example.com/news//'' = ''example.com/news//'' \<and>
   (\<exists>c\<in>set (url_body ''example.com/news//''). c \<noteq> CHR ''/'') \<and>
   has_scheme (normalize_url ''example.com/news//'') \<and>
   normalize_url (normalize_url ''example.com/news//'') = normalize_url ''example.com/news//''"
proof -
  have ne: "''example.com/news//'' \<noteq> []" by simp
  have v: "normalize_url ''example.com/news//'' = ''https://example.com/news''"
    by (simp add: normalize_url_def has_scheme_def startswith_def rstrip_chars_def)
  have b: "url_body ''example.com/news//'' = ''example.com/news//''"
    by (simp add: url_body_def startswith_def)
  have c: "\<exists>c\<in>set (url_body ''example.com/news//''). c \<noteq> CHR ''/''"
    unfolding b by simp
  from normalize_url_idempotent_iff [OF ne] c
  have "has_scheme (normalize_url ''example.com/news//'')"
    and "normalize_url (normalize_url ''example.com/news//'') = normalize_url ''example.com/news//''"
    by blast+
  with ne v b c show ?thesis by blast
qed

section \<open>Properties of deduplicate_articles\<close>

lemma kept_urls_snoc:
  "kept_urls (kept @ [a]) =
     (if normalized_url a \<noteq> [] then insert (normalized_url a) (kept_urls kept)
      else kept_urls kept)"
  by (auto simp: kept_urls_def)

lemma kept_titles_snoc:
  "kept_titles L (kept @ [a]) =
     (if normalized_title L a \<noteq> []
      then insert (md5_hexdigest L (normalized_title L a)) (kept_titles L kept)
      else kept_titles L kept)"
  by (auto simp: kept_titles_def)

text \<open>The loop's state is determined by the list of articles kept so far.\<close>

lemma dedup_step_state_of:
  "dedup_step L (state_of L kept) a = state_of L (keep_step L kept a)"
  by (simp add: dedup_step_def state_of_def keep_step_def keeps_def title_suppressed_def
        normalized_url_def [symmetric] kept_urls_snoc kept_titles_snoc Let_def)

lemma foldl_dedup_step_state_of:
  "foldl (dedup_step L) (state_of L kept) xs = state_of L (foldl (keep_step L) kept xs)"
  by (induction xs arbitrary: kept) (simp_all add: dedup_step_state_of)

lemma deduplicate_articles_keep:
  "deduplicate_articles L xs = foldl (keep_step L) [] xs"
proof -
  have "\<lparr>seen_urls = {}, seen_titles = {}, deduped = []\<rparr> = state_of L []"
    by (simp add: state_of_def kept_urls_def kept_titles_def)
  then show ?thesis
    by (simp add: deduplicate_articles_def foldl_dedup_step_state_of) (simp add: state_of_def)
qed

lemma keep_fold_shape:
  "\<exists>ys. foldl (keep_step L) k xs = k @ ys \<and> subseq ys xs \<and>
        (\<forall>b\<in>set ys. normalized_url b \<noteq> [] \<longrightarrow> normalized_url b \<notin> kept_urls k) \<and>
        distinct (filter (\<lambda>u. u \<noteq> []) (map normalized_url ys))"
proof (induction xs arbitrary: k)
  case Nil
  show ?case by simp
next
  case (Cons a xs)
  show ?case
  proof (cases "keeps L k a")
    case True
    from Cons.IH [of "k @ [a]"] obtain ys where
      ys: "foldl (keep_step L) (k @ [a]) xs = (k @ [a]) @ ys" "subseq ys xs"
          "\<forall>b\<in>set ys. normalized_url b \<noteq> [] \<longrightarrow> normalized_url b \<notin> kept_urls (k @ [a])"
          "distinct (filter (\<lambda>u. u \<noteq> []) (map normalized_url ys))"
      by blast
    have "foldl (keep_step L) k (a # xs) = k @ (a # ys)"
      using True ys(1) by (simp add: keep_step_def)
    moreover have "subseq (a # ys) (a # xs)"
      using ys(2) by simp
    moreover have
      "\<forall>b\<in>set (a # ys). normalized_url b \<noteq> [] \<longrightarrow> normalized_url b \<notin> kept_urls k"
      using True ys(3) by (auto simp: keeps_def kept_urls_snoc split: if_splits)
    moreover have "distinct (filter (\<lambda>u. u \<noteq> []) (map normalized_url (a # ys)))"
      using ys(3,4) by (auto simp: kept_urls_snoc)
    ultimately show ?thesis by blast
  next
    case False
    from Cons.IH [of k] obtain ys where
      ys: "foldl (keep_step L) k xs = k @ ys" "subseq ys xs"
          "\<forall>b\<in>set ys. normalized_url b \<noteq> [] \<longrightarrow> normalized_url b \<notin> kept_urls k"
          "distinct (filter (\<lambda>u. u \<noteq> []) (map normalized_url ys))"
      by blast
    have "foldl (keep_step L) k (a # xs) = k @ ys"
      using False ys(1) by (simp add: keep_step_def)
    moreover have "subseq ys (a # xs)"
      using ys(2) by (rule list_emb_Cons)
    ultimately show ?thesis using ys(3,4) by blast
  qed
qed

lemma deduplicate_articles_subseq: "subseq (deduplicate_articles L xs) xs"
  using keep_fold_shape [of L "[]" xs] by (auto simp: deduplicate_articles_keep)

lemma deduplicate_articles_distinct_urls:
  "distinct (filter (\<lambda>u. u \<noteq> []) (map normalized_url (deduplicate_articles L xs)))"
  using keep_fold_shape [of L "[]" xs] by (auto simp: deduplicate_articles_keep)

lemma dedup_first_occurrence:
  assumes u: "normalized_url a \<noteq> []"
    and first: "normalized_url a \<notin> normalized_url ` set pre"
    and title: "\<not> title_suppressed L (deduplicate_articles L pre) a"
  shows "\<exists>rest. deduplicate_articles L (pre @ a # post) = deduplicate_articles L pre @ a # rest \<and>
           (\<forall>b\<in>set rest. normalized_url b \<noteq> normalized_url a)"
proof -
  let ?K = "deduplicate_articles L pre"
  have "set ?K \<subseteq> set pre"
    using deduplicate_articles_subseq [of L pre] by (auto elim: list_emb_set)
  with first have "normalized_url a \<notin> kept_urls ?K"
    by (auto simp: kept_urls_def)
  with title have "keeps L ?K a"
    by (simp add: keeps_def)
  then have split:
    "deduplicate_articles L (pre @ a # post) = foldl (keep_step L) (?K @ [a]) post"
    by (simp add: deduplicate_articles_keep keep_step_def)
  from keep_fold_shape [of L "?K @ [a]" post] obtain ys where
    ys: "foldl (keep_step L) (?K @ [a]) post = (?K @ [a]) @ ys"
        "\<forall>b\<in>set ys. normalized_url b \<noteq> [] \<longrightarrow> normalized_url b \<notin> kept_urls (?K @ [a])"
    by blast
  from ys(2) u have "\<forall>b\<in>set ys. normalized_url b \<noteq> normalized_url a"
    by (auto simp: kept_urls_snoc)
  with split ys(1) show ?thesis by simp
qed

text \<open>Evaluation of the example articles.\<close>

lemmas text_eval =
  clean_text_def lower_def lower_char_def strip_def rstrip_chars_def is_space_def
  is_category_C_def html_unescape_def char_of_eq_iff

lemmas url_eval = normalized_url_def normalize_url_def has_scheme_def startswith_def rstrip_chars_def

lemma normalized_title_extra:
  "normalized_title L article_extra = ''breaking news about the economy and markets today extra''"
  by (simp add: normalized_title_def article_extra_def blank_article_def text_eval)

lemma normalized_title_extra_copy:
  "normalized_title L article_extra_copy =
     ''breaking news about the economy and markets today extra''"
  by (simp add: normalized_title_def article_extra_copy_def blank_article_def text_eval)

lemma normalized_title_other:
  "normalized_title L article_other = ''breaking news about the economy and markets today other''"
  by (simp add: normalized_title_def article_other_def blank_article_def text_eval)

lemma normalized_title_rally: "normalized_title L article_rally = ''markets rally''"
  by (simp add: normalized_title_def article_rally_def blank_article_def text_eval)

lemma normalized_url_examples:
  "normalized_url article_extra = ''https://a.example/extra''"
  "normalized_url article_other = ''https://b.example/other''"
  "normalized_url article_rally = ''https://b.example/other''"
  "normalized_url article_extra_copy = ''https://b.example/other''"
  by (simp_all add: article_extra_def article_other_def article_rally_def
        article_extra_copy_def blank_article_def url_eval)

lemmas example_titles =
  normalized_title_extra normalized_title_extra_copy normalized_title_other
  normalized_title_rally

lemma example_articles_distinct:
  "article_extra \<noteq> article_other" "article_extra \<noteq> article_rally"
  "article_extra \<noteq> article_extra_copy" "article_other \<noteq> article_rally"
  "article_extra_copy \<noteq> article_rally"
  by (simp_all add: article_extra_def article_other_def article_rally_def
        article_extra_copy_def blank_article_def)

text \<open>
  C1, at the specification's own example. The two normalized titles are longer than 20
  characters and agree on their first 50, and the articles have different URLs. The loop
  stores the MD5 digest of each kept title in \<open>seen_titles\<close>, not the title, so the
  similarity test compares the second title with a 32-character digest: for every MD5
  that gives the first title a digest of 32 characters, different from the digest of the
  second title, both articles survive.
\<close>

theorem near_duplicate_titles_both_survive:
  assumes "length (md5_hexdigest L (normalized_title L article_extra)) = 32"
    and "md5_hexdigest L (normalized_title L article_extra) \<noteq>
         md5_hexdigest L (normalized_title L article_other)"
  shows "length (normalized_title L article_extra) > 20 \<and>
         length (normalized_title L article_other) > 20 \<and>
         take 50 (normalized_title L article_extra) = take 50 (normalized_title L article_other) \<and>
         deduplicate_articles L [article_extra, article_other] = [article_extra, article_other]"
proof -
  let ?h = "md5_hexdigest L (normalized_title L article_extra)"
  have "length (take 50 ?h) = 32"
    using assms(1) by simp
  moreover have "length (take 50 (normalized_title L article_other)) = 50"
    by (simp add: example_titles)
  ultimately have "take 50 (normalized_title L article_other) \<noteq> take 50 ?h"
    by (auto dest: arg_cong [where f = length])
  then have "\<not> is_similar {?h} (normalized_title L article_other)"
    by (simp add: is_similar_def)
  moreover have "kept_titles L [article_extra] = {?h}"
    by (simp add: kept_titles_def example_titles)
  ultimately have "keeps L [article_extra] article_other"
    using assms(2)
    by (simp add: keeps_def title_suppressed_def kept_urls_def normalized_url_examples)
  moreover have "keeps L [] article_extra"
    by (simp add: keeps_def title_suppressed_def kept_urls_def kept_titles_def is_similar_def)
  ultimately have
    "deduplicate_articles L [article_extra, article_other] = [article_extra, article_other]"
    by (simp add: deduplicate_articles_keep keep_step_def)
  then show ?thesis
    by (simp add: example_titles)
qed

theorem near_duplicate_titles_both_survive_witness:
  "length (md5_hexdigest example_libs (normalized_title example_libs article_extra)) = 32 \<and>
   md5_hexdigest example_libs (normalized_title example_libs article_extra) \<noteq>
     md5_hexdigest example_libs (normalized_title example_libs article_other) \<and>
   deduplicate_articles example_libs [article_extra, article_other] =
     [article_extra, article_other]"
proof -
  have a: "length (md5_hexdigest example_libs (normalized_title example_libs article_extra)) = 32"
    by (simp add: example_titles example_libs_def)
  have b: "md5_hexdigest example_libs (normalized_title example_libs article_extra) \<noteq>
           md5_hexdigest example_libs (normalized_title example_libs article_other)"
    by (simp add: example_titles example_libs_def)
  from near_duplicate_titles_both_survive [OF a b] a b show ?thesis
    by blast
qed

lemmas keep_eval =
  deduplicate_articles_keep keep_step_def keeps_def title_suppressed_def kept_urls_def
  kept_titles_def is_similar_def example_titles normalized_url_examples

text \<open>
  C10, as stated: the output is a subsequence of the input, and of several articles with
  the same non-empty normalized URL exactly the first is kept. The second part fails: the
  first article with the URL \<open>https://b.example/other\<close> repeats the title of an earlier
  survivor and is dropped by the title rule before its URL is recorded, so the second
  article with that URL is the one kept.
\<close>

theorem dedup_first_url_occurrence_counterexample:
  "normalized_url article_extra_copy = normalized_url article_rally \<and>
   normalized_url article_rally \<noteq> [] \<and>
   normalized_url article_extra \<noteq> normalized_url article_rally \<and>
   deduplicate_articles example_libs [article_extra, article_extra_copy, article_rally] =
     [article_extra, article_rally] \<and>
   article_extra_copy \<notin>
     set (deduplicate_articles example_libs [article_extra, article_extra_copy, article_rally])"
proof -
  have "deduplicate_articles example_libs [article_extra, article_extra_copy, article_rally] =
          [article_extra, article_rally]"
    by (simp add: keep_eval example_libs_def)
  then show ?thesis
    using example_articles_distinct(3) [symmetric]
    by (simp add: normalized_url_examples example_articles_distinct)
qed

text \<open>
  C10, amended: the output of \<open>deduplicate_articles\<close> is a subsequence of the input; the
  non-empty normalized URLs of the survivors are pairwise different; and the first article
  with a given non-empty normalized URL survives whenever the title rule does not
  suppress it against the survivors before it, and then no later article with that URL
  survives.
\<close>

theorem dedup_subsequence_and_urls:
  "subseq (deduplicate_articles L xs) xs \<and>
   distinct (filter (\<lambda>u. u \<noteq> []) (map normalized_url (deduplicate_articles L xs))) \<and>
   (normalized_url a \<noteq> [] \<and> normalized_url a \<notin> normalized_url ` set pre \<and>
    \<not> title_suppressed L (deduplicate_articles L pre) a \<longrightarrow>
    (\<exists>rest. deduplicate_articles L (pre @ a # post) = deduplicate_articles L pre @ a # rest \<and>
            (\<forall>b\<in>set rest. normalized_url b \<noteq> normalized_url a)))"
  using deduplicate_articles_subseq [of L xs] deduplicate_articles_distinct_urls [of L xs]
    dedup_first_occurrence [of a pre L post]
  by blast

theorem dedup_subsequence_and_urls_witness:
  "normalized_url article_other \<noteq> [] \<and>
   normalized_url article_other \<notin> normalized_url ` set [article_extra] \<and>
   \<not> title_suppressed example_libs (deduplicate_articles example_libs [article_extra])
       article_other \<and>
   subseq (deduplicate_articles example_libs [article_extra, article_other, article_rally])
     [article_extra, article_other, article_rally] \<and>
   (\<exists>rest. deduplicate_articles example_libs ([article_extra] @ article_other # [article_rally]) =
            deduplicate_articles example_libs [article_extra] @ article_other # rest \<and>
            (\<forall>b\<in>set rest. normalized_url b \<noteq> normalized_url article_other))"
proof -
  have a: "normalized_url article_other \<noteq> []"
    by (simp add: normalized_url_examples)
  have b: "normalized_url article_other \<notin> normalized_url ` set [article_extra]"
    by (simp add: normalized_url_examples)
  have c: "\<not> title_suppressed example_libs (deduplicate_articles example_libs [article_extra])
             article_other"
    by (simp add: keep_eval example_libs_def)
  from a b c
    dedup_subsequence_and_urls [of example_libs "[article_extra, article_other, article_rally]"
      article_other "[article_extra]" "[article_rally]"]
  show ?thesis by blast
qed

section \<open>Properties of search_feeds\<close>

lemma sort_by_published_raises:
  assumes "2 \<le> length xs" and "a \<in> set xs" and "published a = Null"
  shows "\<exists>msg. sort_by_published xs = Inl (PyError TypeError msg)"
proof -
  from assms(3) have "published_key a = KNone"
    by (simp add: published_key_def)
  with assms(1,2) show ?thesis
    by (auto simp: sort_by_published_def compare_error_def)
qed

text \<open>Evaluation of the example feed.\<close>

lemma example_feed_articles:
  "map (entry_article example_libs example_world example_feed ''https://news.example/rss'')
     (entries example_feed) = [rally_from_feed, rates_from_feed]"
  by (simp add: example_feed_def entry_article_def entry_published_def example_world_def
        example_libs_def extract_domain_def rally_from_feed_def rates_from_feed_def
        text_eval normalize_url_def has_scheme_def startswith_def)

lemma example_feed_collected:
  "fs_articles (collect_feeds example_libs example_world example_config Map.empty
      [''https://news.example/rss'']) = [rally_from_feed, rates_from_feed]"
proof -
  have take: "py_take (max_articles_per_feed example_config) (entries example_feed) =
                entries example_feed"
    by (simp add: py_take_def example_feed_def example_config_def)
  have get: "http_get example_world ''https://news.example/rss'' = Inr ''<rss/>''"
    by (simp add: example_world_def)
  have parse: "feed_parse example_world ''<rss/>'' = example_feed"
    by (simp add: example_world_def)
  have ok: "\<not> (bozo example_feed \<and> entries example_feed = [])"
    by (simp add: example_feed_def)
  have excl: "exclude_domains example_config = []"
    by (simp add: example_config_def)
  show ?thesis
    by (simp add: collect_feeds_def feed_step_def cache_lookup_def fetch_feed_def
          get parse ok excl take example_feed_articles Let_def)
qed

lemma example_feed_deduplicated:
  "deduplicate_articles example_libs [rally_from_feed, rates_from_feed] =
     [rally_from_feed, rates_from_feed]"
proof -
  have "normalized_title example_libs rally_from_feed = ''markets rally''"
    "normalized_title example_libs rates_from_feed = ''rates held steady''"
    by (simp_all add: normalized_title_def rally_from_feed_def rates_from_feed_def
          example_libs_def text_eval)
  moreover have "normalized_url rally_from_feed = ''https://news.example/a''"
    "normalized_url rates_from_feed = ''https://news.example/b''"
    by (simp_all add: rally_from_feed_def rates_from_feed_def url_eval)
  ultimately show ?thesis
    by (simp add: deduplicate_articles_keep keep_step_def keeps_def title_suppressed_def
          kept_urls_def kept_titles_def is_similar_def example_libs_def)
qed

text \<open>
  Without a \<open>None\<close> key the sort returns the articles by descending key, and an article
  without the \<open>published\<close> key has the least key, the empty string.
\<close>

lemma sort_by_published_sorted:
  assumes "\<forall>a\<in>set xs. published a \<noteq> Null"
  shows "\<exists>ys. sort_by_published xs = Inr ys \<and> mset ys = mset xs \<and>
              sorted (rev (map (\<lambda>a. key_string (published_key a)) ys))"
proof -
  from assms have "\<forall>a\<in>set xs. published_key a \<noteq> KNone"
    by (auto simp: published_key_def split: field.splits)
  then have "sort_by_published xs =
               Inr (rev (sort_key (\<lambda>a. key_string (published_key a)) (rev xs)))"
    by (auto simp: sort_by_published_def)
  then show ?thesis
    by (simp add: rev_map)
qed

lemma absent_key_least: "published a = Absent \<Longrightarrow> key_string (published_key a) \<le> s"
  by (simp add: published_key_def key_string_def)

text \<open>
  C3: the result of \<open>search_feeds\<close> is deduplicated, sorted by date with undated entries
  last under an empty-string key, and cut to the limit. The articles that \<open>search_feeds\<close>
  builds hold \<open>None\<close> under \<open>published\<close> when no date was parsed, so the default of
  \<open>get\<close> is not used and the sort compares \<open>None\<close> with the other keys: whenever two
  or more articles are left after deduplication and one of them has no date, the sort
  raises and no list is returned.
\<close>

theorem search_feeds_undated_entry_raises:
  assumes "resolve_sources C topic srcs \<noteq> []"
    and "2 \<le> length (deduplicate_articles L
                (fs_articles (collect_feeds L W C cache (resolve_sources C topic srcs))))"
    and "a \<in> set (deduplicate_articles L
                (fs_articles (collect_feeds L W C cache (resolve_sources C topic srcs))))"
    and "published a = Null"
  shows "\<exists>msg. search_feeds L W C cache topic srcs limit = Inl (PyError TypeError msg)"
proof -
  from sort_by_published_raises [OF assms(2,3,4)] obtain msg where
    "sort_by_published (deduplicate_articles L
       (fs_articles (collect_feeds L W C cache (resolve_sources C topic srcs)))) =
     Inl (PyError TypeError msg)" ..
  with assms(1) show ?thesis
    by (simp add: search_feeds_def Let_def)
qed

theorem search_feeds_undated_entry_raises_witness:
  "resolve_sources example_config None (Some [''https://news.example/rss'']) \<noteq> [] \<and>
   deduplicate_articles example_libs
     (fs_articles (collect_feeds example_libs example_world example_config Map.empty
        (resolve_sources example_config None (Some [''https://news.example/rss'']))))
     = [rally_from_feed, rates_from_feed] \<and>
   published rates_from_feed = Null \<and>
   (\<exists>msg. search_feeds example_libs example_world example_config Map.empty None
            (Some [''https://news.example/rss'']) 10 = Inl (PyError TypeError msg))"
proof -
  have r: "resolve_sources example_config None (Some [''https://news.example/rss'']) =
             [''https://news.example/rss'']"
    by (simp add: resolve_sources_def)
  have c: "deduplicate_articles example_libs
             (fs_articles (collect_feeds example_libs example_world example_config Map.empty
                [''https://news.example/rss'']))
           = [rally_from_feed, rates_from_feed]"
    by (simp add: example_feed_collected example_feed_deduplicated)
  have p: "published rates_from_feed = Null"
    by (simp add: rates_from_feed_def)
  have "\<exists>msg. search_feeds example_libs example_world example_config Map.empty None
            (Some [''https://news.example/rss'']) 10 = Inl (PyError TypeError msg)"
    by (rule search_feeds_undated_entry_raises [where a = rates_from_feed])
       (simp_all add: r c p)
  with r c p show ?thesis by simp
qed

text \<open>
  C4: no exception leaves the four public operations. On the example feed, whose second
  entry has no date, \<open>search_feeds\<close> raises the \<open>TypeError\<close> of the sort, which is
  outside every \<open>try\<close> block.
\<close>

theorem search_feeds_propagates_type_error:
  "search_feeds example_libs example_world example_config Map.empty None
     (Some [''https://news.example/rss'']) 10 =
   Inl (PyError TypeError
          (quoted ''<'' @ '' not supported between instances of '' @ quoted ''str'' @
           '' and '' @ quoted ''NoneType''))"
proof -
  have "resolve_sources example_config None (Some [''https://news.example/rss'']) =
          [''https://news.example/rss'']"
    by (simp add: resolve_sources_def)
  moreover have "sort_by_published [rally_from_feed, rates_from_feed] =
      Inl (PyError TypeError
             (quoted ''<'' @ '' not supported between instances of '' @ quoted ''str'' @
              '' and '' @ quoted ''NoneType''))"
    by (simp add: sort_by_published_def published_key_def rates_from_feed_def
          rally_from_feed_def compare_error_def type_name_def)
  ultimately show ?thesis
    by (simp add: search_feeds_def example_feed_collected example_feed_deduplicated)
qed

section \<open>Properties of fetch_article\<close>

lemma primary_extraction_no_text:
  assumes "trafilatura_extract X html u = Inr t" and "finds_no_text t"
  shows "primary_extraction W X html u = Inr None"
  using assms by (cases t) (simp_all add: primary_extraction_def finds_no_text_def)

lemma fallback_extraction_no_text:
  assumes "readability X html = Inr doc" and "text_content doc = []"
  shows "\<exists>d. fallback_extraction L W X html u = Inr d \<and> ad_text d = [] \<and>
             ad_word_count d = 0 \<and> extraction_method d = ''readability''"
  using assms by (simp add: fallback_extraction_def Let_def clean_text_def)

lemma extract_article_never_empty: "extract_article L W X u \<noteq> Inr None"
  by (simp add: extract_article_def split: sum.splits option.splits)

text \<open>
  C2: when the page is fetched and neither extractor finds text, \<open>fetch_article\<close>
  reports a failure. In the code the fallback always builds the \<open>article_data\<close>
  dictionary, so the test \<open>if article_data:\<close> cannot fail and the branch that returns
  "Failed to extract meaningful content from the article" is never taken: the call
  returns an article with empty text, zero words, \<open>success = True\<close> and no error.
\<close>

theorem fetch_article_empty_text_successful:
  assumes "cache_lookup W C (cache (md5_hexdigest L (normalize_url url0))) = Miss"
    and "http_get W (normalize_url url0) = Inr html"
    and "trafilatura_extract X html (normalize_url url0) = Inr t"
    and "finds_no_text t"
    and "readability X html = Inr doc"
    and "text_content doc = []"
  shows "\<exists>r cache' d. fetch_article L W X C cache url0 = Inr (r, cache') \<and>
           fr_success r \<and> fr_error r = None \<and> fr_data r = Some d \<and>
           ad_text d = [] \<and> ad_word_count d = 0"
proof -
  let ?u = "normalize_url url0"
  from fallback_extraction_no_text [OF assms(5,6), of L W ?u] obtain d where
    d: "fallback_extraction L W X html ?u = Inr d" "ad_text d = []" "ad_word_count d = 0"
    by blast
  have "extract_article L W X ?u = Inr (Some d)"
    using assms(2) primary_extraction_no_text [OF assms(3,4), of W] d(1)
    by (simp add: extract_article_def)
  with assms(1) d(2,3) show ?thesis
    by (simp add: fetch_article_def Let_def)
qed

theorem fetch_article_empty_text_successful_witness:
  "cache_lookup example_world example_config
     (Map.empty (md5_hexdigest example_libs (normalize_url ''news.example/story''))) = Miss \<and>
   http_get example_world (normalize_url ''news.example/story'') = Inr ''<html></html>'' \<and>
   finds_no_text TrafNone \<and>
   (\<exists>r cache' d. fetch_article example_libs example_world example_extractors example_config
        Map.empty ''news.example/story'' = Inr (r, cache') \<and>
      fr_success r \<and> fr_error r = None \<and> fr_data r = Some d \<and>
      ad_text d = [] \<and> ad_word_count d = 0)"
proof -
  have u: "normalize_url ''news.example/story'' = ''https://news.example/story''"
    by (simp add: normalize_url_def has_scheme_def startswith_def rstrip_chars_def)
  have a: "cache_lookup example_world example_config
             (Map.empty (md5_hexdigest example_libs (normalize_url ''news.example/story''))) = Miss"
    by (simp add: cache_lookup_def)
  have b: "http_get example_world (normalize_url ''news.example/story'') = Inr ''<html></html>''"
    by (simp add: u example_world_def)
  have c: "trafilatura_extract example_extractors ''<html></html>''
             (normalize_url ''news.example/story'') = Inr TrafNone"
    by (simp add: example_extractors_def)
  have d: "finds_no_text TrafNone"
    by (simp add: finds_no_text_def)
  have e: "readability example_extractors ''<html></html>'' =
             Inr \<lparr>doc_title = ''[no-title]'', text_content = []\<rparr>"
    by (simp add: example_extractors_def)
  have f: "text_content \<lparr>doc_title = ''[no-title]'', text_content = []\<rparr> = []"
    by simp
  from fetch_article_empty_text_successful [OF a b c d e f] a b d show ?thesis
    by blast
qed

text \<open>The example page, fetched with an empty cache.\<close>

lemma example_story_fetched:
  "\<exists>r cache'. fetch_article example_libs example_world example_extractors example_config
      Map.empty ''news.example/story'' = Inr (r, cache') \<and> fr_success r"
proof -
  have "normalize_url ''news.example/story'' = ''https://news.example/story''"
    by (simp add: normalize_url_def has_scheme_def startswith_def rstrip_chars_def)
  moreover have "http_get example_world ''https://news.example/story'' = Inr ''<html></html>''"
    by (simp add: example_world_def)
  moreover have "primary_extraction example_world example_extractors ''<html></html>''
                   ''https://news.example/story'' = Inr None"
    by (simp add: primary_extraction_def example_extractors_def)
  moreover have "\<exists>d. fallback_extraction example_libs example_world example_extractors
                   ''<html></html>'' ''https://news.example/story'' = Inr d"
    by (simp add: fallback_extraction_def example_extractors_def Let_def)
  ultimately show ?thesis
    by (auto simp: fetch_article_def cache_lookup_def extract_article_def Let_def)
qed

section \<open>Properties of the cache check\<close>

lemma cache_lookup_written_article:
  "cache_lookup W C (Some (Dict TsAbsent p)) = Miss"
  by (simp add: cache_lookup_def)

text \<open>
  When the read hits: the file is an object whose \<open>timestamp\<close> is an ISO string of a
  naive time less than the TTL before now. In the example the TTL is 3600 seconds and
  the clock reads 21:20:00.
\<close>

lemma cache_lookup_hit_iff:
  "cache_lookup W C file = Hit p \<longleftrightarrow>
     (\<exists>s t. file = Some (Dict (TsStr s) p) \<and> fromisoformat W s = Some t \<and>
            utcoffset t = None \<and> wall_us (now W) - wall_us t < cache_ttl C * 1000000)"
  by (auto simp: cache_lookup_def sub_from_now_def
           split: option.splits cache_file.splits ts_value.splits)

lemma cache_lookup_examples:
  "cache_lookup example_world example_config (Some (Dict (TsStr ''2024-01-04T20:50:00'') p)) = Hit p"
  "cache_lookup example_world example_config (Some (Dict (TsStr ''2024-01-04T20:20:00'') p)) = Miss"
  "cache_lookup example_world example_config (Some (Dict (TsStr ''yesterday'') p)) = Miss"
  "cache_lookup example_world example_config (Some NotJson) = (Miss :: 'p cache_read)"
  "cache_lookup example_world example_config None = (Miss :: 'p cache_read)"
  "cache_lookup example_world example_config
     (Some (Dict (TsStr ''2024-01-01T10:00:00+00:00'') p)) =
   Raises (PyError TypeError ''can't subtract offset-naive and offset-aware datetimes'')"
  by (simp_all add: cache_lookup_def sub_from_now_def example_world_def example_config_def)

text \<open>
  C8: a cache read is a miss, followed by a refetch and never an error, exactly when
  there is no entry, the entry is as old as the TTL, or the payload is not of the
  expected structure; a read within the TTL returns the payload. Three things in the
  code go against it. A file with valid JSON that is not an object makes the read raise
  \<open>TypeError\<close>, which the \<open>except\<close> clause does not list: \<open>fetch_article\<close> lets it
  reach the caller, and \<open>search_feeds\<close> records a feed error and skips the feed without
  fetching it. And the file that \<open>fetch_article\<close> writes has no \<open>timestamp\<close> entry, so
  reading it back is a miss at any time, also within the TTL.
\<close>

theorem cache_read_defects:
  "fetch_article L W X C (cache(md5_hexdigest L (normalize_url url0) \<mapsto> NotDict)) url0 =
     Inl (PyError TypeError ''list indices must be integers or slices, not str'') \<and>
   feed_step L W C (st\<lparr>fs_cache := (fs_cache st)(md5_hexdigest L feed_url \<mapsto> NotDict)\<rparr>) feed_url =
     st\<lparr>fs_cache := (fs_cache st)(md5_hexdigest L feed_url \<mapsto> NotDict),
        fs_errors := fs_errors st @
          [feed_error feed_url (PyError TypeError ''list indices must be integers or slices, not str'')]\<rparr> \<and>
   (cache_lookup W C (cache (md5_hexdigest L (normalize_url url0))) = Miss \<and>
    fetch_article L W X C cache url0 = Inr (r, cache') \<and> fr_success r \<longrightarrow>
    cache' (md5_hexdigest L (normalize_url url0)) = Some (Dict TsAbsent r) \<and>
    cache_lookup W' C' (cache' (md5_hexdigest L (normalize_url url0))) = Miss)"
proof (intro conjI impI)
  show "fetch_article L W X C (cache(md5_hexdigest L (normalize_url url0) \<mapsto> NotDict)) url0 =
          Inl (PyError TypeError ''list indices must be integers or slices, not str'')"
    by (simp add: fetch_article_def cache_lookup_def Let_def)
next
  show "feed_step L W C (st\<lparr>fs_cache := (fs_cache st)(md5_hexdigest L feed_url \<mapsto> NotDict)\<rparr>)
          feed_url =
        st\<lparr>fs_cache := (fs_cache st)(md5_hexdigest L feed_url \<mapsto> NotDict),
           fs_errors := fs_errors st @
             [feed_error feed_url (PyError TypeError ''list indices must be integers or slices, not str'')]\<rparr>"
    by (simp add: feed_step_def cache_lookup_def)
next
  assume a: "cache_lookup W C (cache (md5_hexdigest L (normalize_url url0))) = Miss \<and>
             fetch_article L W X C cache url0 = Inr (r, cache') \<and> fr_success r"
  then have w: "cache' (md5_hexdigest L (normalize_url url0)) = Some (Dict TsAbsent r)"
    by (auto simp: fetch_article_def Let_def failure_response_def
             split: sum.splits option.splits)
  then show "cache' (md5_hexdigest L (normalize_url url0)) = Some (Dict TsAbsent r)" .
  from w show "cache_lookup W' C' (cache' (md5_hexdigest L (normalize_url url0))) = Miss"
    by (simp add: cache_lookup_written_article)
qed

theorem cache_read_defects_witness:
  "cache_lookup example_world example_config
     (Map.empty (md5_hexdigest example_libs (normalize_url ''news.example/story''))) = Miss \<and>
   (\<exists>r cache'. fetch_article example_libs example_world example_extractors example_config
        Map.empty ''news.example/story'' = Inr (r, cache') \<and> fr_success r \<and>
      cache' (md5_hexdigest example_libs (normalize_url ''news.example/story'')) =
        Some (Dict TsAbsent r) \<and>
      cache_lookup example_world example_config
        (cache' (md5_hexdigest example_libs (normalize_url ''news.example/story''))) = Miss)"
proof -
  have a: "cache_lookup example_world example_config
             (Map.empty (md5_hexdigest example_libs (normalize_url ''news.example/story''))) = Miss"
    by (simp add: cache_lookup_def)
  from example_story_fetched obtain r cache' where
    r: "fetch_article example_libs example_world example_extractors example_config
          Map.empty ''news.example/story'' = Inr (r, cache')" "fr_success r"
    by blast
  from cache_read_defects [of example_libs example_world example_extractors example_config
      Map.empty "''news.example/story''"
      "\<lparr>fs_articles = [], fs_errors = [], fs_cache = Map.empty\<rparr>"
      "''https://news.example/rss''" r cache' example_world
      example_config] a r
  have "cache' (md5_hexdigest example_libs (normalize_url ''news.example/story'')) =
          Some (Dict TsAbsent r) \<and>
        cache_lookup example_world example_config
          (cache' (md5_hexdigest example_libs (normalize_url ''news.example/story''))) = Miss"
    by blast
  with a r show ?thesis by blast
qed

section \<open>Properties of the heuristic score\<close>

lemma foldl_boost_step:
  "foldl (boost_step t s) x ks = x + occurrences_score 8 5 t s ks"
  by (induction ks arbitrary: x) (simp_all add: occurrences_score_def boost_step_def Let_def)

lemma foldl_filter_step:
  "foldl (filter_step t s) x ks = x - occurrences_score 20 10 t s ks"
  by (induction ks arbitrary: x) (simp_all add: occurrences_score_def filter_step_def Let_def)

lemma occurrences_score_Nil: "occurrences_score x y t s [] = 0"
  by (simp add: occurrences_score_def)

text \<open>The score that the loop accumulates, as one sum.\<close>

lemma heuristic_score_sum:
  "heuristic_score W C topic item =
     recency_score W item + 2
     + occurrences_score 15 10 (lower (title item)) (lower (summary item)) [topic]
     + occurrences_score 8 5 (lower (title item)) (lower (summary item)) (keywords_boost C)
     - occurrences_score 20 10 (lower (title item)) (lower (summary item)) (keywords_filter C)
     + length_bonus item"
  by (simp add: heuristic_score_def foldl_boost_step foldl_filter_step length_bonus_def Let_def)
     (simp add: occurrences_score_def)

lemma power_int_nine_tenths_pos: "0 < power_int (9 / 10 :: real) n"
  by (simp add: power_int_def)

lemma recency_score_naive:
  assumes "published item = Val s" and "s \<noteq> []" and "date_parse W s = Some d"
    and "utcoffset d = None"
    and "- 6737 < (wall_us (now W) - wall_us d) div 86400000000"
  shows "recency_score W item = stated_recency W item"
proof -
  obtain c cs where s: "s = c # cs"
    using assms(2) by (cases s) auto
  show ?thesis
    using assms(1,3,4,5)
    by (simp add: s recency_score_def stated_recency_def sub_from_now_def Let_def)
qed

lemma recency_score_aware:
  assumes "published item = Val s" and "date_parse W s = Some d" and "utcoffset d = Some off"
  shows "recency_score W item = 0"
  using assms by (cases s) (simp_all add: recency_score_def sub_from_now_def)

text \<open>
  C5: the heuristic score is the stated sum, whose recency term is \<open>10 * 0.9 ^ age\<close>
  whenever the published date parses. A date that parses to a value with a UTC offset,
  which is what \<open>search_feeds\<close> stores for an RSS date, cannot be subtracted from the naive
  \<open>datetime.now()\<close>; the \<open>TypeError\<close> is swallowed by the bare \<open>except\<close> and the
  article gets no recency term. The other terms are as stated.
\<close>

theorem heuristic_score_aware_date:
  assumes "published item = Val s" and "date_parse W s = Some d" and "utcoffset d = Some off"
  shows "heuristic_score W C topic item =
           2 + occurrences_score 15 10 (lower (title item)) (lower (summary item)) [topic]
             + occurrences_score 8 5 (lower (title item)) (lower (summary item)) (keywords_boost C)
             - occurrences_score 20 10 (lower (title item)) (lower (summary item))
                 (keywords_filter C)
             + length_bonus item \<and>
         stated_score W C topic item =
           heuristic_score W C topic item +
           10 * power_int (9 / 10) ((wall_us (now W) - wall_us d) div 86400000000) \<and>
         heuristic_score W C topic item < stated_score W C topic item"
proof -
  let ?age = "(wall_us (now W) - wall_us d) div 86400000000"
  have r: "recency_score W item = 0"
    using assms by (rule recency_score_aware)
  have pos: "0 < 10 * power_int (9 / 10 :: real) ?age"
    using power_int_nine_tenths_pos [of ?age] by simp
  then have s: "stated_recency W item = 10 * power_int (9 / 10) ?age"
    using assms(1,2) by (simp add: stated_recency_def max_def)
  have 1: "heuristic_score W C topic item =
           2 + occurrences_score 15 10 (lower (title item)) (lower (summary item)) [topic]
             + occurrences_score 8 5 (lower (title item)) (lower (summary item)) (keywords_boost C)
             - occurrences_score 20 10 (lower (title item)) (lower (summary item))
                 (keywords_filter C)
             + length_bonus item"
    by (simp add: heuristic_score_sum r)
  have 2: "stated_score W C topic item = heuristic_score W C topic item + 10 * power_int (9 / 10) ?age"
    by (simp add: 1 stated_score_def s)
  from 1 2 pos show ?thesis by simp
qed

theorem heuristic_score_aware_date_witness:
  "published rally_from_feed = Val ''2024-01-01T10:00:00+00:00'' \<and>
   date_parse example_world ''2024-01-01T10:00:00+00:00'' =
     Some \<lparr>wall_us = 63839700000000000, utcoffset = Some 0\<rparr> \<and>
   heuristic_score example_world example_config ''economy'' rally_from_feed = 2 \<and>
   stated_score example_world example_config ''economy'' rally_from_feed = 2 + 10 * (9 / 10) ^ 3"
proof -
  have a: "published rally_from_feed = Val ''2024-01-01T10:00:00+00:00''"
    by (simp add: rally_from_feed_def)
  have b: "date_parse example_world ''2024-01-01T10:00:00+00:00'' =
             Some \<lparr>wall_us = 63839700000000000, utcoffset = Some 0\<rparr>"
    by (simp add: example_world_def)
  have c: "utcoffset \<lparr>wall_us = 63839700000000000, utcoffset = Some 0\<rparr> = Some 0"
    by simp
  have t: "lower (title rally_from_feed) = ''markets rally''"
    "lower (summary rally_from_feed) = ''stocks rose.''"
    by (simp_all add: rally_from_feed_def lower_def lower_char_def char_of_eq_iff)
  have o: "occurrences_score x y ''markets rally'' ''stocks rose.'' [''economy''] = 0"
    for x y :: real
    by (simp add: occurrences_score_def lower_def lower_char_def char_of_eq_iff)
  have l: "length_bonus rally_from_feed = 0"
    by (simp add: length_bonus_def rally_from_feed_def is_space_def)
  have k: "keywords_boost example_config = []" "keywords_filter example_config = []"
    by (simp_all add: example_config_def)
  have n: "(wall_us (now example_world) - 63839700000000000) div 86400000000 = 3"
    by (simp add: example_world_def)
  from heuristic_score_aware_date [OF a b c, of example_config "''economy''"]
  have "heuristic_score example_world example_config ''economy'' rally_from_feed = 2"
    and "stated_score example_world example_config ''economy'' rally_from_feed =
           heuristic_score example_world example_config ''economy'' rally_from_feed +
           10 * power_int (9 / 10) 3"
    by (simp_all add: t o l k n occurrences_score_Nil)
  with a b show ?thesis
    by simp
qed

section \<open>Properties of the ranking response and of rank_articles\<close>

lemma find_json_array_subset: "find_json_array r = Some inner \<Longrightarrow> set inner \<subseteq> set r"
proof (induction r)
  case Nil
  then show ?case by simp
next
  case (Cons c cs)
  show ?case
  proof (cases "find_json_array (c # cs) = find_json_array cs")
    case True
    with Cons show ?thesis by auto
  next
    case False
    then have "find_json_array (c # cs) = Some (takeWhile in_array_class cs)"
      by (simp split: if_splits)
    with Cons.prems have "inner = takeWhile in_array_class cs" by simp
    then show ?thesis
      by (auto dest: set_takeWhileD)
  qed
qed

lemma split_commas_not_Nil: "split_commas s \<noteq> []"
  by (induction s) (auto split: list.splits)

lemma split_commas_subset: "x \<in> set (split_commas s) \<Longrightarrow> set x \<subseteq> set s"
proof (induction s arbitrary: x)
  case Nil
  then show ?case by simp
next
  case (Cons c cs)
  show ?case
  proof (cases "c = CHR '',''")
    case True
    with Cons show ?thesis by auto
  next
    case False
    obtain y ys where y: "split_commas cs = y # ys"
      using split_commas_not_Nil [of cs] by (cases "split_commas cs") auto
    with False Cons.prems have "x = c # y \<or> x \<in> set ys" by auto
    then show ?thesis
    proof
      assume "x = c # y"
      moreover have "set y \<subseteq> set cs" using Cons.IH [of y] y by simp
      ultimately show ?thesis by auto
    next
      assume "x \<in> set ys"
      then have "set x \<subseteq> set cs" using Cons.IH [of x] y by simp
      then show ?thesis by auto
    qed
  qed
qed

lemma json_number_no_digit:
  assumes "\<forall>c\<in>set item. \<not> is_digit c"
  shows "json_number item = None"
proof -
  let ?ds = "rstrip_chars json_ws (dropWhile json_ws item)"
  have "set ?ds \<subseteq> set item"
    by (auto simp: rstrip_chars_def dest!: set_dropWhileD)
  with assms have "\<forall>c\<in>set ?ds. \<not> is_digit c" by blast
  then have "?ds = [] \<or> \<not> list_all is_digit ?ds"
    by (cases ?ds) (auto simp: list_all_iff)
  then show ?thesis
    by (auto simp: json_number_def Let_def)
qed

lemma json_index_array_no_digit:
  assumes "\<forall>c\<in>set inner. \<not> is_digit c"
  shows "json_index_array inner = None \<or> json_index_array inner = Some []"
proof (cases "list_all json_ws inner")
  case True
  then show ?thesis by (simp add: json_index_array_def)
next
  case False
  obtain y ys where y: "split_commas inner = y # ys"
    using split_commas_not_Nil [of inner] by (cases "split_commas inner") auto
  then have "set y \<subseteq> set inner"
    using split_commas_subset [of y inner] by simp
  with assms have "json_number y = None"
    by (intro json_number_no_digit) blast
  with False y show ?thesis
    by (simp add: json_index_array_def)
qed

lemma word_runs_elements:
  "x \<in> set (word_runs cur r) \<Longrightarrow> x \<noteq> [] \<and> set x \<subseteq> set cur \<union> set r"
proof (induction r arbitrary: cur)
  case Nil
  then show ?case by (auto split: if_splits)
next
  case (Cons c cs)
  show ?case
  proof (cases "is_word_char c")
    case True
    with Cons.prems have "x \<in> set (word_runs (c # cur) cs)" by simp
    from Cons.IH [OF this] show ?thesis by auto
  next
    case False
    with Cons.prems have "(cur \<noteq> [] \<and> x = rev cur) \<or> x \<in> set (word_runs [] cs)"
      by (auto split: if_splits)
    then show ?thesis
    proof
      assume "cur \<noteq> [] \<and> x = rev cur"
      then show ?thesis by auto
    next
      assume "x \<in> set (word_runs [] cs)"
      from Cons.IH [OF this] show ?thesis by auto
    qed
  qed
qed

lemma find_numbers_no_digit:
  assumes "\<forall>c\<in>set r. \<not> is_digit c"
  shows "find_numbers r = []"
proof -
  have "\<not> list_all is_digit x" if "x \<in> set (word_runs [] r)" for x
  proof -
    from word_runs_elements [OF that] have "x \<noteq> []" "set x \<subseteq> set r" by auto
    with assms show ?thesis
      by (cases x) (auto simp: list_all_iff)
  qed
  then show ?thesis
    by (simp add: find_numbers_def filter_empty_conv)
qed

lemma parse_ranking_response_no_digit:
  assumes "\<forall>c\<in>set r. \<not> is_digit c"
  shows "parse_ranking_response r = None \<or> parse_ranking_response r = Some []"
proof (cases "find_json_array r")
  case None
  then show ?thesis
    by (simp add: parse_ranking_response_def find_numbers_no_digit [OF assms])
next
  case (Some inner)
  then have "set inner \<subseteq> set r" by (rule find_json_array_subset)
  with assms have "\<forall>c\<in>set inner. \<not> is_digit c" by blast
  from json_index_array_no_digit [OF this] Some show ?thesis
    by (auto simp: parse_ranking_response_def)
qed

lemma parse_ranking_response_empty: "parse_ranking_response [] = None"
  by (simp add: parse_ranking_response_def find_numbers_def)

lemma llm_rank_articles_unparsed:
  assumes "llm_respond W cands topic = Some response"
    and "parse_ranking_response response = None \<or> parse_ranking_response response = Some []"
  shows "llm_rank_articles W C cands topic = None"
  using assms by (cases response) (auto simp: llm_rank_articles_def)

lemma llm_rank_articles_parsed:
  assumes "llm_available C" and "llm_respond W cands topic = Some response"
    and "parse_ranking_response response = Some indices" and "indices \<noteq> []"
  shows "llm_rank_articles W C cands topic =
           Some (map (\<lambda>i. cands ! i) (filter (\<lambda>i. i < length cands) indices))"
proof -
  from assms(3) have "response \<noteq> []"
    by (auto simp: parse_ranking_response_empty)
  then obtain c cs where "response = c # cs" by (cases response) auto
  moreover obtain i ixs where "indices = i # ixs"
    using assms(4) by (cases indices) auto
  ultimately show ?thesis
    using assms(1,2,3) by (simp add: llm_rank_articles_def)
qed

lemma rank_articles_fallback:
  assumes "items \<noteq> []" and "llm_rank_articles W C (top_candidates W C topic items) topic = None"
  shows "rank_articles W C items topic = take 5 (top_candidates W C topic items)"
  using assms by (simp add: rank_articles_def Let_def)

lemma rank_articles_unavailable:
  assumes "items \<noteq> []" and "\<not> llm_available C"
  shows "rank_articles W C items topic = take 5 (top_candidates W C topic items)"
  using assms by (simp add: rank_articles_def Let_def)

lemma rank_articles_reranked:
  assumes "items \<noteq> []" and "llm_available C"
    and "llm_rank_articles W C (top_candidates W C topic items) topic = Some rs"
  shows "rank_articles W C items topic =
           (if rs = [] then take 5 (top_candidates W C topic items) else take 5 rs)"
  using assms by (cases rs) (simp_all add: rank_articles_def Let_def)

lemma parse_ranking_response_shape:
  assumes "parse_ranking_response response = Some indices"
  shows "length indices \<le> 5 \<and>
         (\<exists>extracted. indices = take 5 extracted \<and>
            (case find_json_array response of
               Some inner \<Rightarrow> json_index_array inner = Some extracted
             | None \<Rightarrow> extracted = map digits_value (find_numbers response)))"
proof (cases "find_json_array response")
  case None
  with assms have "indices = take 5 (map digits_value (find_numbers response))"
    by (auto simp: parse_ranking_response_def Let_def take_map split: if_splits)
  with None show ?thesis by auto
next
  case (Some inner)
  with assms obtain extracted where "json_index_array inner = Some extracted"
    "indices = take 5 extracted"
    by (auto simp: parse_ranking_response_def split: option.splits)
  with Some show ?thesis by auto
qed

text \<open>The candidates do not depend on the language model.\<close>

lemma recency_score_llm_update [simp]:
  "recency_score (W\<lparr>llm_respond := f\<rparr>) item = recency_score W item"
  by (simp add: recency_score_def split: field.splits list.splits option.splits)

lemma heuristic_score_llm_update [simp]:
  "heuristic_score (W\<lparr>llm_respond := f\<rparr>) C topic item = heuristic_score W C topic item"
  by (simp add: heuristic_score_sum)

lemma top_candidates_llm_update [simp]:
  "top_candidates (W\<lparr>llm_respond := f\<rparr>) C topic items = top_candidates W C topic items"
  by (simp add: top_candidates_def)

text \<open>Evaluation of the ranking example.\<close>

lemma example_scores:
  "heuristic_score example_world C ''markets'' rally_from_feed =
     17 + occurrences_score 8 5 ''markets rally'' ''stocks rose.'' (keywords_boost C)
        - occurrences_score 20 10 ''markets rally'' ''stocks rose.'' (keywords_filter C)"
  "heuristic_score example_world C ''markets'' rates_from_feed =
     2 + occurrences_score 8 5 ''rates held steady'' ''no change.'' (keywords_boost C)
       - occurrences_score 20 10 ''rates held steady'' ''no change.'' (keywords_filter C)"
proof -
  have t: "lower (title rally_from_feed) = ''markets rally''"
    "lower (summary rally_from_feed) = ''stocks rose.''"
    "lower (title rates_from_feed) = ''rates held steady''"
    "lower (summary rates_from_feed) = ''no change.''"
    "lower ''markets'' = ''markets''"
    by (simp_all add: rally_from_feed_def rates_from_feed_def lower_def lower_char_def
          char_of_eq_iff)
  have r: "recency_score example_world rally_from_feed = 0"
    "recency_score example_world rates_from_feed = 0"
    by (simp_all add: recency_score_def rally_from_feed_def rates_from_feed_def
          example_world_def sub_from_now_def)
  have l: "length_bonus rally_from_feed = 0" "length_bonus rates_from_feed = 0"
    by (simp_all add: length_bonus_def rally_from_feed_def rates_from_feed_def is_space_def)
  have o: "occurrences_score 15 10 ''markets rally'' ''stocks rose.'' [''markets''] = 15"
    "occurrences_score 15 10 ''rates held steady'' ''no change.'' [''markets''] = 0"
    by (simp_all add: occurrences_score_def t(5))
  show "heuristic_score example_world C ''markets'' rally_from_feed =
     17 + occurrences_score 8 5 ''markets rally'' ''stocks rose.'' (keywords_boost C)
        - occurrences_score 20 10 ''markets rally'' ''stocks rose.'' (keywords_filter C)"
    by (simp add: heuristic_score_sum t r l o)
  show "heuristic_score example_world C ''markets'' rates_from_feed =
     2 + occurrences_score 8 5 ''rates held steady'' ''no change.'' (keywords_boost C)
       - occurrences_score 20 10 ''rates held steady'' ''no change.'' (keywords_filter C)"
    by (simp add: heuristic_score_sum t r l o)
qed

lemma example_candidates:
  assumes "keywords_boost C = []" and "keywords_filter C = []"
  shows "top_candidates example_world C ''markets'' [rates_from_feed, rally_from_feed] =
           [rally_from_feed, rates_from_feed]"
  by (simp add: top_candidates_def example_scores assms occurrences_score_Nil)

lemma example_response_parsed: "parse_ranking_response ''Ranking: [1, 7, 0]'' = Some [1, 7, 0]"
proof -
  have "find_json_array ''Ranking: [1, 7, 0]'' = Some ''1, 7, 0''"
    by (simp add: in_array_class_def is_digit_def is_space_def)
  moreover have "split_commas ''1, 7, 0'' = [''1'', '' 7'', '' 0'']"
    by simp
  moreover have "json_number ''1'' = Some 1" "json_number '' 7'' = Some 7"
    "json_number '' 0'' = Some 0"
    by (simp_all add: json_number_def json_ws_def rstrip_chars_def is_digit_def digits_value_def)
  moreover have "\<not> list_all json_ws ''1, 7, 0''"
    by (simp add: json_ws_def)
  ultimately show ?thesis
    by (simp add: parse_ranking_response_def json_index_array_def)
qed

lemma long_answer_parsed:
  "find_json_array ''[20, 21, 22, 23, 24, 1, 0]'' = Some ''20, 21, 22, 23, 24, 1, 0''"
  "json_index_array ''20, 21, 22, 23, 24, 1, 0'' = Some [20, 21, 22, 23, 24, 1, 0]"
  "parse_ranking_response ''[20, 21, 22, 23, 24, 1, 0]'' = Some [20, 21, 22, 23, 24]"
proof -
  show f: "find_json_array ''[20, 21, 22, 23, 24, 1, 0]'' = Some ''20, 21, 22, 23, 24, 1, 0''"
    by (simp add: in_array_class_def is_digit_def is_space_def)
  have s: "split_commas ''20, 21, 22, 23, 24, 1, 0'' =
             [''20'', '' 21'', '' 22'', '' 23'', '' 24'', '' 1'', '' 0'']"
    by simp
  have n: "json_number ''20'' = Some 20" "json_number '' 21'' = Some 21"
    "json_number '' 22'' = Some 22" "json_number '' 23'' = Some 23"
    "json_number '' 24'' = Some 24" "json_number '' 1'' = Some 1" "json_number '' 0'' = Some 0"
    by (simp_all add: json_number_def json_ws_def rstrip_chars_def is_digit_def digits_value_def)
  show j: "json_index_array ''20, 21, 22, 23, 24, 1, 0'' = Some [20, 21, 22, 23, 24, 1, 0]"
    by (simp add: json_index_array_def s n json_ws_def)
  show "parse_ranking_response ''[20, 21, 22, 23, 24, 1, 0]'' = Some [20, 21, 22, 23, 24]"
    unfolding parse_ranking_response_def f by (simp add: j)
qed

lemma prose_answer_parsed:
  "find_json_array ''Sorry, I can only see 1 relevant article'' = None"
  "parse_ranking_response ''Sorry, I can only see 1 relevant article'' = Some [1]"
proof -
  show f: "find_json_array ''Sorry, I can only see 1 relevant article'' = None"
    by simp
  have "word_runs [] ''Sorry, I can only see 1 relevant article'' =
          [''Sorry'', ''I'', ''can'', ''only'', ''see'', ''1'', ''relevant'', ''article'']"
    by (simp add: is_word_char_def)
  then have "find_numbers ''Sorry, I can only see 1 relevant article'' = [''1'']"
    by (simp add: find_numbers_def is_digit_def)
  then show "parse_ranking_response ''Sorry, I can only see 1 relevant article'' = Some [1]"
    by (simp add: parse_ranking_response_def f digits_value_def)
qed

text \<open>
  C7, as stated: an index beyond the candidate list is dropped, an unparseable response
  gives the heuristic order, and the result follows the refined order whenever the
  ranker returned a usable index. The parser cuts the indices to five before the range
  check, so the usable indices 1 and 0 that follow five indices out of range are never
  looked at and the result is the heuristic order; and a sentence that is no ranking at
  all, but holds the number 1, is parsed to the index 1 and decides the result.
\<close>

theorem rank_articles_refinement_counterexample:
  "llm_available example_llm_config \<and>
   top_candidates long_answer_world example_llm_config ''markets''
     [rates_from_feed, rally_from_feed] = [rally_from_feed, rates_from_feed] \<and>
   llm_respond long_answer_world [rally_from_feed, rates_from_feed] ''markets'' =
     Some ''[20, 21, 22, 23, 24, 1, 0]'' \<and>
   find_json_array ''[20, 21, 22, 23, 24, 1, 0]'' = Some ''20, 21, 22, 23, 24, 1, 0'' \<and>
   json_index_array ''20, 21, 22, 23, 24, 1, 0'' = Some [20, 21, 22, 23, 24, 1, 0] \<and>
   map (\<lambda>i. [rally_from_feed, rates_from_feed] ! i)
     (filter (\<lambda>i. i < length [rally_from_feed, rates_from_feed]) [20, 21, 22, 23, 24, 1, 0]) =
     [rates_from_feed, rally_from_feed] \<and>
   rank_articles long_answer_world example_llm_config
     [rates_from_feed, rally_from_feed] ''markets'' = [rally_from_feed, rates_from_feed] \<and>
   llm_respond prose_answer_world [rally_from_feed, rates_from_feed] ''markets'' =
     Some ''Sorry, I can only see 1 relevant article'' \<and>
   find_json_array ''Sorry, I can only see 1 relevant article'' = None \<and>
   rank_articles prose_answer_world example_llm_config
     [rates_from_feed, rally_from_feed] ''markets'' = [rates_from_feed]"
proof -
  have av: "llm_available example_llm_config"
    by (simp add: llm_available_def example_llm_config_def example_config_def)
  have k: "keywords_boost example_llm_config = []" "keywords_filter example_llm_config = []"
    by (simp_all add: example_llm_config_def example_config_def)
  have c: "top_candidates example_world example_llm_config ''markets''
             [rates_from_feed, rally_from_feed] = [rally_from_feed, rates_from_feed]"
    using k by (rule example_candidates)
  have c1: "top_candidates long_answer_world example_llm_config ''markets''
              [rates_from_feed, rally_from_feed] = [rally_from_feed, rates_from_feed]"
    by (simp add: long_answer_world_def c)
  have c2: "top_candidates prose_answer_world example_llm_config ''markets''
              [rates_from_feed, rally_from_feed] = [rally_from_feed, rates_from_feed]"
    by (simp add: prose_answer_world_def c)
  have r1: "llm_respond long_answer_world [rally_from_feed, rates_from_feed] ''markets'' =
              Some ''[20, 21, 22, 23, 24, 1, 0]''"
    by (simp add: long_answer_world_def)
  have r2: "llm_respond prose_answer_world [rally_from_feed, rates_from_feed] ''markets'' =
              Some ''Sorry, I can only see 1 relevant article''"
    by (simp add: prose_answer_world_def)
  have "llm_rank_articles long_answer_world example_llm_config
          [rally_from_feed, rates_from_feed] ''markets'' = Some []"
    using llm_rank_articles_parsed [OF av r1 long_answer_parsed(3)] by simp
  then have a1: "rank_articles long_answer_world example_llm_config
      [rates_from_feed, rally_from_feed] ''markets'' = [rally_from_feed, rates_from_feed]"
    using rank_articles_reranked [of "[rates_from_feed, rally_from_feed]" example_llm_config
        long_answer_world "''markets''" "[]"] av
    by (simp add: c1)
  have "llm_rank_articles prose_answer_world example_llm_config
          [rally_from_feed, rates_from_feed] ''markets'' = Some [rates_from_feed]"
    using llm_rank_articles_parsed [OF av r2 prose_answer_parsed(2)] by simp
  then have a2: "rank_articles prose_answer_world example_llm_config
      [rates_from_feed, rally_from_feed] ''markets'' = [rates_from_feed]"
    using rank_articles_reranked [of "[rates_from_feed, rally_from_feed]" example_llm_config
        prose_answer_world "''markets''" "[rates_from_feed]"] av
    by (simp add: c2)
  show ?thesis
    using av c1 r1 long_answer_parsed(1,2) a1 r2 prose_answer_parsed(1) a2 by simp
qed

text \<open>
  C7, amended: the indices considered are the first five that the parser extracts from
  the response: the elements of the first bracketed list of digits, commas and
  whitespace when it is a JSON array, else, when the response has no such bracketed
  list, the numbers that stand alone in the text. Of these indices those that point
  beyond the candidate list are dropped. When the ranker is not available, the call
  fails, nothing is parsed from the response (as for every response without a digit) or
  none of these indices is usable, the result is the first five candidates of the
  heuristic order; else it is the candidates at the usable indices, in the order of the
  response.
\<close>

theorem rank_articles_refinement:
  assumes "items \<noteq> []"
  shows
    "(llm_available C \<and>
      llm_respond W (top_candidates W C topic items) topic = Some response \<and>
      parse_ranking_response response = Some indices \<longrightarrow>
      length indices \<le> 5 \<and>
      (\<exists>extracted. indices = take 5 extracted \<and>
         (case find_json_array response of
            Some inner \<Rightarrow> json_index_array inner = Some extracted
          | None \<Rightarrow> extracted = map digits_value (find_numbers response))) \<and>
      rank_articles W C items topic =
        (let candidates = top_candidates W C topic items;
             usable = filter (\<lambda>i. i < length candidates) indices
         in if usable = [] then take 5 candidates
            else take 5 (map (\<lambda>i. candidates ! i) usable))) \<and>
     (\<not> llm_available C \<or>
      llm_respond W (top_candidates W C topic items) topic = None \<or>
      (llm_respond W (top_candidates W C topic items) topic = Some response \<and>
       (parse_ranking_response response = None \<or> (\<forall>c\<in>set response. \<not> is_digit c))) \<longrightarrow>
      rank_articles W C items topic = take 5 (top_candidates W C topic items))"
proof (intro conjI impI)
  assume "llm_available C \<and>
          llm_respond W (top_candidates W C topic items) topic = Some response \<and>
          parse_ranking_response response = Some indices"
  then have p: "parse_ranking_response response = Some indices" by simp
  from parse_ranking_response_shape [OF p] show "length indices \<le> 5" by simp
  from parse_ranking_response_shape [OF p]
  show "\<exists>extracted. indices = take 5 extracted \<and>
          (case find_json_array response of
             Some inner \<Rightarrow> json_index_array inner = Some extracted
           | None \<Rightarrow> extracted = map digits_value (find_numbers response))"
    by simp
next
  let ?cands = "top_candidates W C topic items"
  assume a: "llm_available C \<and> llm_respond W ?cands topic = Some response \<and>
             parse_ranking_response response = Some indices"
  show "rank_articles W C items topic =
          (let candidates = ?cands; usable = filter (\<lambda>i. i < length candidates) indices
           in if usable = [] then take 5 candidates
              else take 5 (map (\<lambda>i. candidates ! i) usable))"
  proof (cases "indices = []")
    case True
    with a have "llm_rank_articles W C ?cands topic = None"
      by (intro llm_rank_articles_unparsed [of W ?cands topic response]) simp_all
    with assms True show ?thesis
      by (simp add: rank_articles_fallback)
  next
    case False
    with a have "llm_rank_articles W C ?cands topic =
        Some (map (\<lambda>i. ?cands ! i) (filter (\<lambda>i. i < length ?cands) indices))"
      by (intro llm_rank_articles_parsed [where response = response]) simp_all
    from rank_articles_reranked [OF assms _ this] a show ?thesis
      by (simp add: Let_def)
  qed
next
  let ?cands = "top_candidates W C topic items"
  assume b: "\<not> llm_available C \<or> llm_respond W ?cands topic = None \<or>
             (llm_respond W ?cands topic = Some response \<and>
              (parse_ranking_response response = None \<or> (\<forall>c\<in>set response. \<not> is_digit c)))"
  have "parse_ranking_response response = None \<or> parse_ranking_response response = Some []"
    if "\<forall>c\<in>set response. \<not> is_digit c"
    using that by (rule parse_ranking_response_no_digit)
  with b consider "\<not> llm_available C" | "llm_respond W ?cands topic = None"
    | "llm_respond W ?cands topic = Some response"
      "parse_ranking_response response = None \<or> parse_ranking_response response = Some []"
    by metis
  then show "rank_articles W C items topic = take 5 ?cands"
  proof cases
    case 1
    with assms show ?thesis by (rule rank_articles_unavailable)
  next
    case 2
    then have "llm_rank_articles W C ?cands topic = None"
      by (simp add: llm_rank_articles_def)
    with assms show ?thesis by (rule rank_articles_fallback)
  next
    case 3
    then have "llm_rank_articles W C ?cands topic = None"
      by (rule llm_rank_articles_unparsed)
    with assms show ?thesis by (rule rank_articles_fallback)
  qed
qed

theorem rank_articles_refinement_witness:
  "[rates_from_feed, rally_from_feed] \<noteq> [] \<and>
   llm_available example_llm_config \<and> \<not> llm_available example_config \<and>
   top_candidates example_world example_llm_config ''markets''
     [rates_from_feed, rally_from_feed] = [rally_from_feed, rates_from_feed] \<and>
   llm_respond example_world [rally_from_feed, rates_from_feed] ''markets'' =
     Some ''Ranking: [1, 7, 0]'' \<and>
   parse_ranking_response ''Ranking: [1, 7, 0]'' = Some [1, 7, 0] \<and>
   rank_articles example_world example_llm_config
     [rates_from_feed, rally_from_feed] ''markets'' = [rates_from_feed, rally_from_feed] \<and>
   rank_articles example_world example_config
     [rates_from_feed, rally_from_feed] ''markets'' = [rally_from_feed, rates_from_feed]"
proof -
  have ne: "[rates_from_feed, rally_from_feed] \<noteq> []" by simp
  have av: "llm_available example_llm_config" "\<not> llm_available example_config"
    by (simp_all add: llm_available_def example_llm_config_def example_config_def)
  have c1: "top_candidates example_world example_llm_config ''markets''
              [rates_from_feed, rally_from_feed] = [rally_from_feed, rates_from_feed]"
    by (rule example_candidates) (simp_all add: example_llm_config_def example_config_def)
  have c2: "top_candidates example_world example_config ''markets''
              [rates_from_feed, rally_from_feed] = [rally_from_feed, rates_from_feed]"
    by (rule example_candidates) (simp_all add: example_config_def)
  have re: "llm_respond example_world [rally_from_feed, rates_from_feed] ''markets'' =
              Some ''Ranking: [1, 7, 0]''"
    by (simp add: example_world_def)
  note p = example_response_parsed
  from rank_articles_refinement [OF ne, of example_llm_config example_world "''markets''"
      "''Ranking: [1, 7, 0]''" "[1, 7, 0]"] av(1) re p
  have r1: "rank_articles example_world example_llm_config
              [rates_from_feed, rally_from_feed] ''markets'' = [rates_from_feed, rally_from_feed]"
    by (simp add: c1)
  from rank_articles_refinement [OF ne, of example_config example_world "''markets''"
      "''Ranking: [1, 7, 0]''" "[1, 7, 0]"] av(2)
  have r2: "rank_articles example_world example_config
              [rates_from_feed, rally_from_feed] ''markets'' = [rally_from_feed, rates_from_feed]"
    by (simp add: c2)
  from ne av c1 re p r1 r2 show ?thesis by blast
qed

section \<open>Properties of the date range of the heuristic summary\<close>








end
